theory Spec2Isabelle
  imports Main
begin

unbundle bit_operations_syntax

text \<open>
  A model of \<open>requests_safe\<close> (\<open>src/requests_safe/__init__.py\<close>), the adapter for
  the requests library that refuses to connect to addresses of private, reserved and
  similar networks: the table \<open>UNSAFE_NETWORKS\<close> and \<open>ip_is_safe\<close>,
  \<open>create_connection\<close>, \<open>SafeHTTPConnection._new_conn\<close>, and the classes that
  \<open>apply\<close> mounts on a session. Functions of the standard library and of
  requests and urllib3 that the module calls are modelled where a statement needs
  them, each under the name of the function it stands for. Exceptions are values
  (\<open>Inl\<close>), and the calls on sockets that a dial makes are returned as a trace.
\<close>

section \<open>Python exceptions\<close>

text \<open>
  The exceptions that travel through \<open>requests_safe\<close>. \<open>socket.error\<close> is
  \<open>OSError\<close>, and \<open>socket.timeout\<close> is a subclass of it: \<open>except socket.error\<close>
  catches both, \<open>except SocketTimeout\<close> only the second. \<open>TypeError\<close> and
  \<open>ValueError\<close> are outside that family. A string argument is the text that
  \<open>str(e)\<close> returns.
\<close>

datatype socket_error =
    SocketError string
  | SocketTimeout string

datatype exn =
    OSError socket_error
  | TypeError string
  | ValueError string

section \<open>The standard library's \<open>ipaddress\<close> module\<close>

text \<open>
  \<open>requests_safe\<close> builds its table with \<open>ipaddress.ip_network\<close> and classifies with
  \<open>ipaddress.ip_address\<close> and the network's \<open>__contains__\<close>. The module belongs to
  the Python standard library; the definitions below follow CPython 3.11's
  \<open>ipaddress.py\<close> for string arguments. Addresses are Python integers (\<open>_ip\<close>),
  hence \<open>int\<close>. A parser returns \<open>None\<close> where the library raises
  \<open>AddressValueError\<close> or \<open>NetmaskValueError\<close>.
\<close>

text \<open>\<open>str.split(sep)\<close> for a one-character separator: always at least one part.\<close>

fun str_split :: "char \<Rightarrow> string \<Rightarrow> string list" where
  "str_split sep [] = [[]]"
| "str_split sep (c # cs) =
     (if c = sep then [] # str_split sep cs
      else (case str_split sep cs of
              [] \<Rightarrow> [[c]]
            | p # ps \<Rightarrow> (c # p) # ps))"

definition DEC_DIGITS :: string where
  "DEC_DIGITS = ''0123456789''"

definition HEX_DIGITS :: string where
  "HEX_DIGITS = ''0123456789ABCDEFabcdef''"

text \<open>The value of one digit, as \<open>int(s, base)\<close> reads it.\<close>

definition digit_value :: "char \<Rightarrow> int" where
  "digit_value c =
     (case map_of (zip ''0123456789abcdef'' [0, 1, 2, 3, 4, 5, 6, 7, 8, 9, 10, 11, 12, 13, 14, 15]) c of
        Some v \<Rightarrow> v
      | None \<Rightarrow>
          (case map_of (zip ''ABCDEF'' [10, 11, 12, 13, 14, 15]) c of
             Some v \<Rightarrow> v
           | None \<Rightarrow> 0))"

text \<open>\<open>int(s, base)\<close> on a non-empty string of digits of that base.\<close>

definition int_of_digits :: "int \<Rightarrow> string \<Rightarrow> int" where
  "int_of_digits base s = foldl (\<lambda>acc c. acc * base + digit_value c) 0 s"

text \<open>\<open>_BaseV4._parse_octet\<close>.\<close>

definition parse_octet :: "string \<Rightarrow> int option" where
  "parse_octet octet_str =
     (if octet_str = [] then None
      else if \<not> list_all (\<lambda>c. c \<in> set DEC_DIGITS) octet_str then None
      else if length octet_str > 3 then None
      else if octet_str \<noteq> ''0'' \<and> hd octet_str = CHR ''0'' then None
      else (let octet_int = int_of_digits 10 octet_str
            in if octet_int > 255 then None else Some octet_int))"

text \<open>\<open>_BaseV4._ip_int_from_string\<close>: four octets, big endian.\<close>

definition ipv4_int_from_string :: "string \<Rightarrow> int option" where
  "ipv4_int_from_string ip_str =
     (if ip_str = [] then None
      else (let octets = str_split (CHR ''.'') ip_str
            in if length octets \<noteq> 4 then None
               else (case those (map parse_octet octets) of
                       None \<Rightarrow> None
                     | Some bs \<Rightarrow> Some (foldl (\<lambda>acc b. acc * 256 + b) 0 bs))))"

text \<open>\<open>IPv4Address(address)\<close> for a string: a slash is refused first.\<close>

definition ipv4_address :: "string \<Rightarrow> int option" where
  "ipv4_address addr_str =
     (if CHR ''/'' \<in> set addr_str then None else ipv4_int_from_string addr_str)"

text \<open>\<open>_BaseV6._parse_hextet\<close>; \<open>int('', 16)\<close> raises \<open>ValueError\<close>.\<close>

definition parse_hextet :: "string \<Rightarrow> int option" where
  "parse_hextet hextet_str =
     (if \<not> list_all (\<lambda>c. c \<in> set HEX_DIGITS) hextet_str then None
      else if length hextet_str > 4 then None
      else if hextet_str = [] then None
      else Some (int_of_digits 16 hextet_str))"

text \<open>\<open>'%x' % v\<close> for \<open>0 \<le> v \<le> 0xFFFF\<close>.\<close>

definition hex_of_hextet :: "int \<Rightarrow> string" where
  "hex_of_hextet v =
     (let ds = map (\<lambda>k. ''0123456789abcdef'' ! nat ((v div 16 ^ k) mod 16)) [3, 2, 1, 0]
      in (case dropWhile (\<lambda>c. c = CHR ''0'') ds of
            [] \<Rightarrow> ''0''
          | r \<Rightarrow> r))"

text \<open>Each of the two \<open>for\<close> statements of \<open>_ip_int_from_string\<close> that shift hextets in.\<close>

definition shift_hextets :: "int \<Rightarrow> int list \<Rightarrow> int" where
  "shift_hextets ip_int hs = foldl (\<lambda>acc h. push_bit 16 acc OR h) ip_int hs"

text \<open>
  \<open>_BaseV6._ip_int_from_string\<close>, in its three stages. First the parts between the
  colons, an IPv4-style suffix replaced by its two hextets.
\<close>

definition ipv6_parts :: "string \<Rightarrow> string list option" where
  "ipv6_parts ip_str =
     (if ip_str = [] then None
      else (let parts = str_split (CHR '':'') ip_str in
        if length parts < 3 then None
        else (case (if CHR ''.'' \<in> set (last parts)
                    then (case ipv4_address (last parts) of
                            None \<Rightarrow> None
                          | Some ipv4_int \<Rightarrow>
                              Some (butlast parts @
                                    [hex_of_hextet (drop_bit 16 ipv4_int AND 0xFFFF),
                                     hex_of_hextet (ipv4_int AND 0xFFFF)]))
                    else Some parts) of
                None \<Rightarrow> None
              | Some parts' \<Rightarrow> if length parts' > 9 then None else Some parts')))"

text \<open>
  Then \<open>(parts_hi, parts_lo, parts_skipped)\<close>: the search for the one \<open>::\<close> among the
  inner parts and the checks on the two ends.
\<close>

definition ipv6_layout :: "string list \<Rightarrow> (nat \<times> nat \<times> nat) option" where
  "ipv6_layout parts =
     (let empties = filter (\<lambda>i. parts ! i = []) [1 ..< length parts - 1] in
      if length empties > 1 then None
      else (case empties of
              skip_index # _ \<Rightarrow>
                (let parts_hi = (if hd parts = [] then skip_index - 1 else skip_index);
                     parts_lo = (if last parts = [] then length parts - skip_index - 1 - 1
                                 else length parts - skip_index - 1)
                 in if hd parts = [] \<and> parts_hi \<noteq> 0 then None
                    else if last parts = [] \<and> parts_lo \<noteq> 0 then None
                    else if 8 - int (parts_hi + parts_lo) < 1 then None
                    else Some (parts_hi, parts_lo, 8 - (parts_hi + parts_lo)))
            | [] \<Rightarrow>
                if length parts \<noteq> 8 then None
                else if hd parts = [] then None
                else if last parts = [] then None
                else Some (length parts, 0, 0)))"

text \<open>Last the hextets above the gap, the gap, and the hextets below it.\<close>

definition ipv6_assemble :: "string list \<Rightarrow> nat \<times> nat \<times> nat \<Rightarrow> int option" where
  "ipv6_assemble parts layout =
     (case layout of (parts_hi, parts_lo, parts_skipped) \<Rightarrow>
        (case those (map parse_hextet (take parts_hi parts)) of
           None \<Rightarrow> None
         | Some his \<Rightarrow>
             (case those (map parse_hextet (drop (length parts - parts_lo) parts)) of
                None \<Rightarrow> None
              | Some los \<Rightarrow>
                  Some (shift_hextets
                         (push_bit (16 * parts_skipped) (shift_hextets 0 his)) los))))"

definition ipv6_int_from_string :: "string \<Rightarrow> int option" where
  "ipv6_int_from_string ip_str =
     (case ipv6_parts ip_str of
        None \<Rightarrow> None
      | Some parts \<Rightarrow>
          (case ipv6_layout parts of
             None \<Rightarrow> None
           | Some layout \<Rightarrow> ipv6_assemble parts layout))"

text \<open>\<open>_BaseV6._split_scope_id\<close>: \<open>ip_str.partition('%')\<close> and its checks.\<close>

definition split_scope_id :: "string \<Rightarrow> (string \<times> string option) option" where
  "split_scope_id ip_str =
     (let addr = takeWhile (\<lambda>c. c \<noteq> CHR ''%'') ip_str;
          rest = dropWhile (\<lambda>c. c \<noteq> CHR ''%'') ip_str
      in (case rest of
            [] \<Rightarrow> Some (addr, None)
          | _ # scope \<Rightarrow>
              if scope = [] \<or> CHR ''%'' \<in> set scope then None
              else Some (addr, Some scope)))"

text \<open>\<open>IPv6Address(address)\<close> for a string: the integer and the scope id.\<close>

definition ipv6_address :: "string \<Rightarrow> (int \<times> string option) option" where
  "ipv6_address addr_str =
     (if CHR ''/'' \<in> set addr_str then None
      else (case split_scope_id addr_str of
              None \<Rightarrow> None
            | Some (a, scope) \<Rightarrow>
                (case ipv6_int_from_string a of
                   None \<Rightarrow> None
                 | Some ip_int \<Rightarrow> Some (ip_int, scope))))"

datatype ip_addr =
    IPv4Address int
  | IPv6Address int "string option"

fun version :: "ip_addr \<Rightarrow> nat" where
  "version (IPv4Address _) = 4"
| "version (IPv6Address _ _) = 6"

fun ip_int :: "ip_addr \<Rightarrow> int" where
  "ip_int (IPv4Address i) = i"
| "ip_int (IPv6Address i _) = i"

text \<open>
  \<open>repr\<close> of a string that holds no quote, backslash or unprintable character: the
  string between apostrophes.
\<close>

definition repr :: "string \<Rightarrow> string" where
  "repr s = [CHR 0x27] @ s @ [CHR 0x27]"

text \<open>\<open>ipaddress.ip_address\<close>: IPv4 first, then IPv6, else \<open>ValueError\<close>.\<close>

definition ip_address :: "string \<Rightarrow> exn + ip_addr" where
  "ip_address address =
     (case ipv4_address address of
        Some i \<Rightarrow> Inr (IPv4Address i)
      | None \<Rightarrow>
          (case ipv6_address address of
             Some (i, scope) \<Rightarrow> Inr (IPv6Address i scope)
           | None \<Rightarrow>
               Inl (ValueError (repr address @ '' does not appear to be an IPv4 or IPv6 address''))))"

text \<open>
  A network object: its version, \<open>network_address._ip\<close>, \<open>netmask._ip\<close> and
  \<open>_prefixlen\<close>.
\<close>

record ip_net =
  net_version :: nat
  network_address :: int
  netmask :: int
  prefixlen :: nat

definition max_prefixlen :: "nat \<Rightarrow> nat" where
  "max_prefixlen v = (if v = 4 then 32 else 128)"

definition ALL_ONES :: "nat \<Rightarrow> int" where
  "ALL_ONES v = 2 ^ max_prefixlen v - 1"

text \<open>\<open>_ip_int_from_prefix\<close>: the netmask of a prefix length.\<close>

definition ip_int_from_prefix :: "nat \<Rightarrow> nat \<Rightarrow> int" where
  "ip_int_from_prefix v p = ALL_ONES v XOR drop_bit p (ALL_ONES v)"

text \<open>\<open>_prefix_from_prefix_string\<close>: decimal digits, at most the version's length.\<close>

definition prefix_from_prefix_string :: "nat \<Rightarrow> string \<Rightarrow> nat option" where
  "prefix_from_prefix_string v prefixlen_str =
     (if prefixlen_str = [] \<or> \<not> list_all (\<lambda>c. c \<in> set DEC_DIGITS) prefixlen_str then None
      else (let p = int_of_digits 10 prefixlen_str
            in if p \<le> int (max_prefixlen v) then Some (nat p) else None))"

text \<open>
  The result of \<open>IPv4Network(address, strict=True)\<close> or \<open>IPv6Network(...)\<close>: the
  network, an \<open>AddressValueError\<close>/\<open>NetmaskValueError\<close> (which \<open>ip_network\<close> catches
  to try the other version), or the plain \<open>ValueError\<close> of a network with host bits
  set (which it does not catch).
\<close>

datatype net_result = Net ip_net | NotThisVersion | HostBitsSet

text \<open>
  The constructors share their body: split at the slash (\<open>_split_addr_prefix\<close>), parse
  the address, make the netmask, refuse host bits. A mask written as an address
  (\<open>/255.0.0.0\<close>), which the table never uses, is read as invalid here.
\<close>

definition make_network :: "nat \<Rightarrow> string \<Rightarrow> net_result" where
  "make_network v address =
     (let parts = str_split (CHR ''/'') address in
      if length parts > 2 then NotThisVersion
      else (case (if v = 4 then ipv4_address (hd parts)
                  else map_option fst (ipv6_address (hd parts))) of
              None \<Rightarrow> NotThisVersion
            | Some packed \<Rightarrow>
                (case (if length parts > 1 then prefix_from_prefix_string v (parts ! 1)
                       else Some (max_prefixlen v)) of
                   None \<Rightarrow> NotThisVersion
                 | Some p \<Rightarrow>
                     (let mask = ip_int_from_prefix v p
                      in if packed AND mask \<noteq> packed then HostBitsSet
                         else Net \<lparr>net_version = v, network_address = packed,
                                   netmask = mask, prefixlen = p\<rparr>))))"

text \<open>
  \<open>ipaddress.ip_network(address)\<close> with the default \<open>strict=True\<close>. The
  message about host bits names the network in its normal form; the literal stands for
  it here.
\<close>

definition ip_network :: "string \<Rightarrow> exn + ip_net" where
  "ip_network address =
     (case make_network 4 address of
        Net n \<Rightarrow> Inr n
      | HostBitsSet \<Rightarrow> Inl (ValueError (address @ '' has host bits set''))
      | NotThisVersion \<Rightarrow>
          (case make_network 6 address of
             Net n \<Rightarrow> Inr n
           | HostBitsSet \<Rightarrow> Inl (ValueError (address @ '' has host bits set''))
           | NotThisVersion \<Rightarrow>
               Inl (ValueError (repr address @ '' does not appear to be an IPv4 or IPv6 network''))))"

text \<open>\<open>_BaseNetwork.__contains__\<close> for an address: \<open>ip in network\<close>.\<close>

definition contains :: "ip_net \<Rightarrow> ip_addr \<Rightarrow> bool" where
  "contains network other =
     (if net_version network \<noteq> version other then False
      else ip_int other AND netmask network = network_address network)"

section \<open>The denylist and the classifier\<close>

text \<open>The literals of \<open>UNSAFE_NETWORKS\<close>, in the order of the module.\<close>

definition UNSAFE_NETWORK_LITERALS :: "string list" where
  "UNSAFE_NETWORK_LITERALS =
     [''10.0.0.0/8'', ''172.16.0.0/12'', ''192.168.0.0/16'', ''169.254.0.0/16'',
      ''100.64.0.0/10'', ''127.0.0.0/8'', ''0.0.0.0/32'', ''192.0.0.0/24'',
      ''192.0.2.0/24'', ''192.88.99.0/24'', ''198.18.0.0/15'', ''198.51.100.0/24'',
      ''203.0.113.0/24'', ''224.0.0.0/4'', ''240.0.0.0/4'', ''255.255.255.255/32'',
      ''::/128'', ''::1/128'', ''::ffff:0:0/96'', ''::ffff:0:0:0/96'', ''64:ff9b::/96'',
      ''100::/64'', ''2001::/32'', ''2001:20::/28'', ''2001:db8::/32'', ''2002::/16'',
      ''fc00::/7'', ''fe80::/10'', ''ff00::/8'']"

text \<open>
  \<open>UNSAFE_NETWORKS\<close>: the networks those literals denote. A literal that
  \<open>ip_network\<close> refused would stop the module's import; \<open>unsafe_literals_parse\<close>
  below shows that none is refused.
\<close>

definition UNSAFE_NETWORKS :: "ip_net list" where
  "UNSAFE_NETWORKS =
     concat (map (\<lambda>s. case ip_network s of Inr n \<Rightarrow> [n] | Inl _ \<Rightarrow> []) UNSAFE_NETWORK_LITERALS)"

text \<open>
  \<open>ip_is_safe\<close> on Python 3 (\<open>PY2\<close> is false, so the \<open>decode\<close> is not run): the
  \<open>ValueError\<close> of \<open>ipaddress.ip_address\<close> propagates; otherwise the loop returns
  \<open>False\<close> at the first network that contains the address.
\<close>

fun in_any :: "ip_net list \<Rightarrow> ip_addr \<Rightarrow> bool" where
  "in_any [] ip = False"
| "in_any (network # rest) ip = (if contains network ip then True else in_any rest ip)"

definition ip_is_safe :: "string \<Rightarrow> exn + bool" where
  "ip_is_safe ip =
     (case ip_address ip of
        Inl e \<Rightarrow> Inl e
      | Inr a \<Rightarrow> Inr (\<not> in_any UNSAFE_NETWORKS a))"

subsection \<open>The denylist as the specification lists it\<close>

text \<open>
  The specification gives the denylist as CIDR ranges. A range is a version, a base
  address and a prefix length; an address falls inside it when it has the version and
  lies between the base and the last address of the block.
\<close>

definition in_cidr :: "nat \<times> int \<times> nat \<Rightarrow> ip_addr \<Rightarrow> bool" where
  "in_cidr r a =
     (case r of (v, base, p) \<Rightarrow>
        version a = v \<and> base \<le> ip_int a \<and> ip_int a < base + 2 ^ (max_prefixlen v - p))"

definition cidr4 :: "int \<Rightarrow> int \<Rightarrow> int \<Rightarrow> int \<Rightarrow> nat \<Rightarrow> nat \<times> int \<times> nat" where
  "cidr4 a b c d p = (4, ((a * 256 + b) * 256 + c) * 256 + d, p)"

definition cidr6 :: "int list \<Rightarrow> nat \<Rightarrow> nat \<times> int \<times> nat" where
  "cidr6 hs p = (6, foldl (\<lambda>acc h. acc * 65536 + h) 0 hs, p)"

text \<open>The sixteen IPv4 ranges, in the order of the specification.\<close>

definition SPEC_DENYLIST_V4 :: "(nat \<times> int \<times> nat) list" where
  "SPEC_DENYLIST_V4 =
     [cidr4 10 0 0 0 8, cidr4 172 16 0 0 12, cidr4 192 168 0 0 16,
      cidr4 169 254 0 0 16, cidr4 100 64 0 0 10, cidr4 127 0 0 0 8,
      cidr4 0 0 0 0 32, cidr4 192 0 0 0 24,
      cidr4 192 0 2 0 24, cidr4 198 51 100 0 24, cidr4 203 0 113 0 24,
      cidr4 192 88 99 0 24, cidr4 198 18 0 0 15, cidr4 224 0 0 0 4,
      cidr4 240 0 0 0 4, cidr4 255 255 255 255 32]"

text \<open>The thirteen IPv6 ranges, each base address as its eight hextets.\<close>

definition SPEC_DENYLIST_V6 :: "(nat \<times> int \<times> nat) list" where
  "SPEC_DENYLIST_V6 =
     [cidr6 [0, 0, 0, 0, 0, 0, 0, 0] 128, cidr6 [0, 0, 0, 0, 0, 0, 0, 1] 128,
      cidr6 [0, 0, 0, 0, 0, 0xffff, 0, 0] 96, cidr6 [0, 0, 0, 0, 0xffff, 0, 0, 0] 96,
      cidr6 [0x64, 0xff9b, 0, 0, 0, 0, 0, 0] 96, cidr6 [0x100, 0, 0, 0, 0, 0, 0, 0] 64,
      cidr6 [0x2001, 0, 0, 0, 0, 0, 0, 0] 32, cidr6 [0x2001, 0x20, 0, 0, 0, 0, 0, 0] 28,
      cidr6 [0x2001, 0xdb8, 0, 0, 0, 0, 0, 0] 32, cidr6 [0x2002, 0, 0, 0, 0, 0, 0, 0] 16,
      cidr6 [0xfc00, 0, 0, 0, 0, 0, 0, 0] 7, cidr6 [0xfe80, 0, 0, 0, 0, 0, 0, 0] 10,
      cidr6 [0xff00, 0, 0, 0, 0, 0, 0, 0] 8]"

text \<open>The range a network object stands for, and what its constructor guarantees.\<close>

definition cidr_of :: "ip_net \<Rightarrow> nat \<times> int \<times> nat" where
  "cidr_of n = (net_version n, network_address n, prefixlen n)"

definition net_ok :: "ip_net \<Rightarrow> bool" where
  "net_ok n \<longleftrightarrow>
     netmask n = ip_int_from_prefix (net_version n) (prefixlen n) \<and>
     network_address n AND netmask n = network_address n \<and>
     0 \<le> network_address n \<and> network_address n < 2 ^ max_prefixlen (net_version n)"

section \<open>Sockets and the resolver\<close>

text \<open>
  A socket address \<open>sa\<close> is \<open>(host, port)\<close> for \<open>AF_INET\<close> and
  \<open>(host, port, flowinfo, scope_id)\<close> for \<open>AF_INET6\<close>; \<open>sa[0]\<close> is the IP literal.
  A resolver result \<open>res\<close> is \<open>(af, socktype, proto, canonname, sa)\<close>.
\<close>

datatype sockaddr =
    SockAddr4 string nat
  | SockAddr6 string nat nat nat

fun sa_host :: "sockaddr \<Rightarrow> string" where
  "sa_host (SockAddr4 h _) = h"
| "sa_host (SockAddr6 h _ _ _) = h"

record addrinfo =
  ai_family :: int
  ai_socktype :: int
  ai_protocol :: int
  ai_canonname :: string
  ai_addr :: sockaddr

text \<open>A socket option is \<open>(level, optname, value)\<close>.\<close>

type_synonym sockopt = "int \<times> int \<times> int"

text \<open>
  The \<open>timeout\<close> argument: the sentinel \<open>socket._GLOBAL_DEFAULT_TIMEOUT\<close>, or a value
  for \<open>settimeout\<close>, which is \<open>None\<close> or a number of seconds (whole seconds here).
\<close>

datatype timeout =
    GLOBAL_DEFAULT_TIMEOUT
  | Timeout "int option"

text \<open>
  The calls \<open>create_connection\<close> makes on the socket module and on a socket. The
  trace of a dial is the list of its calls in order, each tagged with the number of the
  connect attempt it belongs to; the socket that an attempt creates is known by that
  number. \<open>Socket af socktype proto created\<close> records whether \<open>socket.socket\<close>
  returned a socket.
\<close>

datatype call =
    Socket int int int bool
  | Setsockopt sockopt
  | Settimeout "int option"
  | Connect sockaddr
  | Close

type_synonym sock = nat

type_synonym event = "sock \<times> call"

text \<open>
  The operating system, as far as a dial sees it: what \<open>socket.getaddrinfo\<close> yields
  for a host and port (with the fixed \<open>SOCK_STREAM\<close>, \<open>IPPROTO_TCP\<close> and flags of
  the call), and for \<open>socket.socket\<close>, \<open>setsockopt\<close> and \<open>connect\<close> whether the
  call raises, as a function of its arguments. What these calls raise is a
  \<open>socket.error\<close>. \<open>close\<close> does not raise. \<open>default_timeout_str\<close> is the text of
  \<open>str(socket._GLOBAL_DEFAULT_TIMEOUT)\<close>, which names an address of the process.
\<close>

record os =
  getaddrinfo :: "string \<Rightarrow> nat \<Rightarrow> socket_error + addrinfo list"
  socket_fails :: "int \<Rightarrow> int \<Rightarrow> int \<Rightarrow> socket_error option"
  setsockopt_fails :: "sockopt \<Rightarrow> socket_error option"
  connect_fails :: "sockaddr \<Rightarrow> socket_error option"
  default_timeout_str :: string

text \<open>\<open>sock.settimeout(value)\<close> raises \<open>ValueError\<close> on a negative number.\<close>

definition settimeout_fails :: "int option \<Rightarrow> exn option" where
  "settimeout_fails v =
     (case v of
        None \<Rightarrow> None
      | Some t \<Rightarrow> if t < 0 then Some (ValueError ''Timeout value out of range'') else None)"

section \<open>\<open>create_connection\<close>\<close>

text \<open>
  \<open>for opt in socket_options: sock.setsockopt(*opt)\<close> over a list: the exception
  that ends the loop, if any, and the calls made.
\<close>

fun set_options :: "os \<Rightarrow> sockopt list \<Rightarrow> socket_error option \<times> call list" where
  "set_options os [] = (None, [])"
| "set_options os (opt # opts) =
     (case setsockopt_fails os opt of
        Some e \<Rightarrow> (Some e, [Setsockopt opt])
      | None \<Rightarrow>
          (case set_options os opts of
             (r, calls) \<Rightarrow> (r, Setsockopt opt # calls)))"

text \<open>
  The \<open>if timeout is not socket._GLOBAL_DEFAULT_TIMEOUT: sock.settimeout(timeout)\<close>
  statement.
\<close>

definition set_timeout :: "timeout \<Rightarrow> exn option \<times> call list" where
  "set_timeout timeout =
     (case timeout of
        GLOBAL_DEFAULT_TIMEOUT \<Rightarrow> (None, [])
      | Timeout v \<Rightarrow> (settimeout_fails v, [Settimeout v]))"

text \<open>
  The body of the \<open>try\<close> block for one candidate: the exception it raises
  (\<open>None\<close> when it reaches \<open>return sock\<close>), whether \<open>sock\<close> is a socket at that
  point, and the calls made. Iterating over the default \<open>socket_options=None\<close> raises
  \<open>TypeError\<close>.
\<close>

definition try_body ::
  "os \<Rightarrow> timeout \<Rightarrow> sockopt list option \<Rightarrow> addrinfo \<Rightarrow> exn option \<times> bool \<times> call list" where
  "try_body os timeout socket_options res =
     (case socket_fails os (ai_family res) (ai_socktype res) (ai_protocol res) of
        Some e \<Rightarrow>
          (Some (OSError e), False,
           [Socket (ai_family res) (ai_socktype res) (ai_protocol res) False])
      | None \<Rightarrow>
          (let c0 = [Socket (ai_family res) (ai_socktype res) (ai_protocol res) True] in
           case socket_options of
             None \<Rightarrow>
               (Some (TypeError (repr ''NoneType'' @ '' object is not iterable'')), True, c0)
           | Some opts \<Rightarrow>
               (case set_options os opts of
                  (Some e, c1) \<Rightarrow> (Some (OSError e), True, c0 @ c1)
                | (None, c1) \<Rightarrow>
                    (case set_timeout timeout of
                       (Some e, c2) \<Rightarrow> (Some e, True, c0 @ c1 @ c2)
                     | (None, c2) \<Rightarrow>
                         (case connect_fails os (ai_addr res) of
                            Some e \<Rightarrow>
                              (Some (OSError e), True, c0 @ c1 @ c2 @ [Connect (ai_addr res)])
                          | None \<Rightarrow>
                              (None, True, c0 @ c1 @ c2 @ [Connect (ai_addr res)]))))))"

text \<open>
  The \<open>for res in socket.getaddrinfo(...)\<close> loop with the two statements after it.
  \<open>err\<close> is the variable of that name, \<open>tr\<close> the calls made so far. A candidate
  whose address \<open>ip_is_safe\<close> refuses to parse ends the call with that
  \<open>ValueError\<close>; an unsafe one is passed over by \<open>continue\<close>; for a safe one the
  \<open>try\<close> block runs as attempt number \<open>length tr\<close>. \<open>except socket.error\<close> stores
  the exception in \<open>err\<close>, closes the socket if there is one and goes on; any other
  exception leaves the function as it is. After the loop, \<open>raise err\<close> or the
  \<open>socket.error\<close> of the last line.
\<close>

fun connect_loop ::
  "os \<Rightarrow> timeout \<Rightarrow> sockopt list option \<Rightarrow> addrinfo list \<Rightarrow> socket_error option \<Rightarrow>
   event list \<Rightarrow> (exn + sock) \<times> event list" where
  "connect_loop os timeout socket_options [] err tr =
     (case err of
        Some e \<Rightarrow> (Inl (OSError e), tr)
      | None \<Rightarrow> (Inl (OSError (SocketError ''getaddrinfo returns an empty list'')), tr))"
| "connect_loop os timeout socket_options (res # rest) err tr =
     (case ip_is_safe (sa_host (ai_addr res)) of
        Inl e \<Rightarrow> (Inl e, tr)
      | Inr safe \<Rightarrow>
          if \<not> safe then connect_loop os timeout socket_options rest err tr
          else (case try_body os timeout socket_options res of
                  (None, created, calls) \<Rightarrow>
                    (Inr (length tr), tr @ map (Pair (length tr)) calls)
                | (Some exc, created, calls) \<Rightarrow>
                    (case exc of
                       OSError e \<Rightarrow>
                         connect_loop os timeout socket_options rest (Some e)
                           (tr @ map (Pair (length tr))
                                   (calls @ (if created then [Close] else [])))
                     | TypeError m \<Rightarrow> (Inl exc, tr @ map (Pair (length tr)) calls)
                     | ValueError m \<Rightarrow> (Inl exc, tr @ map (Pair (length tr)) calls))))"

text \<open>\<open>s.strip(chars)\<close> and \<open>s.rstrip(chars)\<close>.\<close>

definition strip :: "string \<Rightarrow> string \<Rightarrow> string" where
  "strip chars s =
     rev (dropWhile (\<lambda>c. c \<in> set chars) (rev (dropWhile (\<lambda>c. c \<in> set chars) s)))"

definition rstrip :: "string \<Rightarrow> string \<Rightarrow> string" where
  "rstrip chars s = rev (dropWhile (\<lambda>c. c \<in> set chars) (rev s))"

text \<open>The host that is resolved: brackets around an IPv6 literal are stripped.\<close>

definition dial_host :: "string \<Rightarrow> string" where
  "dial_host host = (if take 1 host = ''['' then strip ''[]'' host else host)"

text \<open>
  \<open>create_connection(address, timeout, socket_options)\<close>: the result (the exception
  raised or the socket returned) and the calls made. An exception of
  \<open>socket.getaddrinfo\<close> propagates.
\<close>

definition create_connection ::
  "os \<Rightarrow> string \<times> nat \<Rightarrow> timeout \<Rightarrow> sockopt list option \<Rightarrow> (exn + sock) \<times> event list" where
  "create_connection os address timeout socket_options =
     (case address of
        (host, port) \<Rightarrow>
          (case getaddrinfo os (dial_host host) port of
             Inl e \<Rightarrow> (Inl (OSError e), [])
           | Inr results \<Rightarrow> connect_loop os timeout socket_options results None []))"

section \<open>\<open>SafeHTTPConnection._new_conn\<close>\<close>

text \<open>The fields of a connection object that \<open>_new_conn\<close> reads.\<close>

record http_connection =
  conn_host :: string
  conn_port :: nat
  conn_timeout :: timeout
  conn_socket_options :: "sockopt list option"

text \<open>What \<open>_new_conn\<close> raises: urllib3's two errors, or anything it does not catch.\<close>

datatype conn_error =
    ConnectTimeoutError string
  | NewConnectionError string
  | Uncaught exn

text \<open>\<open>str\<close> of a non-negative integer, of an integer, and of the timeout.\<close>

fun str_nat :: "nat \<Rightarrow> string" where
  "str_nat n =
     (if n < 10 then [''0123456789'' ! n]
      else str_nat (n div 10) @ [''0123456789'' ! (n mod 10)])"

definition str_int :: "int \<Rightarrow> string" where
  "str_int i = (if i < 0 then ''-'' @ str_nat (nat (- i)) else str_nat (nat i))"

definition str_timeout :: "os \<Rightarrow> timeout \<Rightarrow> string" where
  "str_timeout os timeout =
     (case timeout of
        GLOBAL_DEFAULT_TIMEOUT \<Rightarrow> default_timeout_str os
      | Timeout None \<Rightarrow> ''None''
      | Timeout (Some t) \<Rightarrow> str_int t)"

text \<open>
  The \<open>socket_options\<close> that \<open>_new_conn\<close> passes: the connection's own if they are
  truthy (neither \<open>None\<close> nor the empty list); otherwise the keyword is left out and
  \<open>create_connection\<close> gets its default \<open>None\<close>.
\<close>

definition extra_kw :: "http_connection \<Rightarrow> sockopt list option" where
  "extra_kw self =
     (case conn_socket_options self of
        None \<Rightarrow> None
      | Some opts \<Rightarrow> if opts = [] then None else Some opts)"

text \<open>\<open>_new_conn\<close>: \<open>except SocketTimeout\<close> comes first, then \<open>except SocketError\<close>.\<close>

definition new_conn :: "os \<Rightarrow> http_connection \<Rightarrow> (conn_error + sock) \<times> event list" where
  "new_conn os self =
     (case create_connection os (rstrip ''.'' (conn_host self), conn_port self)
             (conn_timeout self) (extra_kw self) of
        (Inr conn, tr) \<Rightarrow> (Inr conn, tr)
      | (Inl exc, tr) \<Rightarrow>
          (case exc of
             OSError e \<Rightarrow>
               (case e of
                  SocketTimeout m \<Rightarrow>
                    (Inl (ConnectTimeoutError
                            (''Connection to '' @ conn_host self @
                             '' timed out. (connect timeout='' @
                             str_timeout os (conn_timeout self) @ '')'')), tr)
                | SocketError m \<Rightarrow>
                    (Inl (NewConnectionError
                            (''Failed to establish a new connection: '' @ m)), tr))
           | TypeError m \<Rightarrow> (Inl (Uncaught exc), tr)
           | ValueError m \<Rightarrow> (Inl (Uncaught exc), tr)))"

section \<open>The adapter, the pool manager and \<open>apply\<close>\<close>





















section \<open>Example environments\<close>

text \<open>
  Resolver results as the test suite builds them (\<open>AF_INET = 2\<close>, \<open>AF_INET6 = 10\<close>,
  \<open>SOCK_STREAM = 1\<close>, \<open>IPPROTO_TCP = 6\<close>), and an operating system that resolves
  every host to a given list and lets \<open>connect\<close> fail for given addresses.
\<close>

definition cand4 :: "string \<Rightarrow> nat \<Rightarrow> addrinfo" where
  "cand4 ip port =
     \<lparr>ai_family = 2, ai_socktype = 1, ai_protocol = 6, ai_canonname = [],
      ai_addr = SockAddr4 ip port\<rparr>"

definition cand6 :: "string \<Rightarrow> nat \<Rightarrow> addrinfo" where
  "cand6 ip port =
     \<lparr>ai_family = 10, ai_socktype = 1, ai_protocol = 6, ai_canonname = [],
      ai_addr = SockAddr6 ip port 0 0\<rparr>"

definition example_os :: "addrinfo list \<Rightarrow> (string \<times> socket_error) list \<Rightarrow> os" where
  "example_os results failing =
     \<lparr>getaddrinfo = (\<lambda>host port. Inr results),
      socket_fails = (\<lambda>af socktype proto. None),
      setsockopt_fails = (\<lambda>opt. None),
      connect_fails = (\<lambda>sa. map_of failing (sa_host sa)),
      default_timeout_str = ''<object object>''\<rparr>"

text \<open>The same, with \<open>socket.socket\<close> itself raising, as one test fixture has it.\<close>

definition no_socket_os :: "addrinfo list \<Rightarrow> socket_error \<Rightarrow> os" where
  "no_socket_os results e =
     (example_os results []) \<lparr>socket_fails := (\<lambda>af socktype proto. Some e)\<rparr>"

section \<open>Vocabulary of the statements about a dial\<close>

text \<open>
  How \<open>ip_is_safe\<close> classifies a candidate: safe, unsafe, or neither (its address
  is no IP literal).
\<close>

definition is_safe :: "addrinfo \<Rightarrow> bool" where
  "is_safe res \<longleftrightarrow> ip_is_safe (sa_host (ai_addr res)) = Inr True"

definition is_unsafe :: "addrinfo \<Rightarrow> bool" where
  "is_unsafe res \<longleftrightarrow> ip_is_safe (sa_host (ai_addr res)) = Inr False"

definition is_literal :: "addrinfo \<Rightarrow> bool" where
  "is_literal res \<longleftrightarrow> (case ip_is_safe (sa_host (ai_addr res)) of Inl e \<Rightarrow> False | Inr b \<Rightarrow> True)"

text \<open>A candidate list with its unsafe candidates removed, and a resolver that removes them.\<close>

definition drop_unsafe :: "addrinfo list \<Rightarrow> addrinfo list" where
  "drop_unsafe results = filter (\<lambda>res. \<not> is_unsafe res) results"

definition without_unsafe :: "os \<Rightarrow> os" where
  "without_unsafe os =
     os \<lparr>getaddrinfo := (\<lambda>host port. map_sum id drop_unsafe (getaddrinfo os host port))\<rparr>"

definition resolving_to :: "addrinfo list \<Rightarrow> os \<Rightarrow> os" where
  "resolving_to results os = os \<lparr>getaddrinfo := (\<lambda>host port. Inr results)\<rparr>"

text \<open>
  The outcome of the connect attempt on a candidate: it connects, or it fails with a
  \<open>socket.error\<close> that the handler records.
\<close>

definition connects :: "os \<Rightarrow> timeout \<Rightarrow> sockopt list option \<Rightarrow> addrinfo \<Rightarrow> bool" where
  "connects os timeout socket_options res \<longleftrightarrow>
     is_safe res \<and> fst (try_body os timeout socket_options res) = None"

definition attempt_error ::
  "os \<Rightarrow> timeout \<Rightarrow> sockopt list option \<Rightarrow> addrinfo \<Rightarrow> socket_error option" where
  "attempt_error os timeout socket_options res =
     (case fst (try_body os timeout socket_options res) of
        None \<Rightarrow> None
      | Some exc \<Rightarrow> (case exc of OSError e \<Rightarrow> Some e | TypeError m \<Rightarrow> None | ValueError m \<Rightarrow> None))"

text \<open>
  The calls of a complete attempt, in the order of the specification: the socket, every
  option in the order given, the timeout if one was requested, the connect.
\<close>

definition full_attempt :: "sockopt list \<Rightarrow> timeout \<Rightarrow> addrinfo \<Rightarrow> call list" where
  "full_attempt opts timeout res =
     Socket (ai_family res) (ai_socktype res) (ai_protocol res) True #
     map Setsockopt opts @
     (case timeout of GLOBAL_DEFAULT_TIMEOUT \<Rightarrow> [] | Timeout v \<Rightarrow> [Settimeout v]) @
     [Connect (ai_addr res)]"

text \<open>
  The sockets of a trace that were created and not closed, in the order of their
  creation. In a trace with fresh numbers every attempt number is below the length.
\<close>

definition created_socks :: "event list \<Rightarrow> sock list" where
  "created_socks tr =
     map fst (filter (\<lambda>ev. case snd ev of Socket af st pr created \<Rightarrow> created | _ \<Rightarrow> False) tr)"

definition open_socks :: "event list \<Rightarrow> sock list" where
  "open_socks tr = filter (\<lambda>s. (s, Close) \<notin> set tr) (created_socks tr)"

definition fresh_numbers :: "event list \<Rightarrow> bool" where
  "fresh_numbers tr \<longleftrightarrow> list_all (\<lambda>ev. fst ev < length tr) tr"

text \<open>What \<open>_new_conn\<close> makes of a \<open>socket.error\<close> of \<open>create_connection\<close>.\<close>

definition surfaced :: "os \<Rightarrow> http_connection \<Rightarrow> socket_error \<Rightarrow> conn_error" where
  "surfaced os self e =
     (case e of
        SocketTimeout m \<Rightarrow>
          ConnectTimeoutError
            (''Connection to '' @ conn_host self @ '' timed out. (connect timeout='' @
             str_timeout os (conn_timeout self) @ '')'')
      | SocketError m \<Rightarrow> NewConnectionError (''Failed to establish a new connection: '' @ m))"

text \<open>
  The calls of one attempt as they stand in the trace: those of the \<open>try\<close> block,
  and the handler's \<open>close\<close> when a \<open>socket.error\<close> was caught with a socket at hand.
\<close>

definition attempt_calls :: "os \<Rightarrow> timeout \<Rightarrow> sockopt list option \<Rightarrow> addrinfo \<Rightarrow> call list" where
  "attempt_calls os timeout socket_options res =
     snd (snd (try_body os timeout socket_options res)) @
     (if attempt_error os timeout socket_options res \<noteq> None \<and>
         fst (snd (try_body os timeout socket_options res))
      then [Close] else [])"

text \<open>
  Blocks of calls laid out one after the other, each under the number of its first
  position, starting at \<open>n\<close>: the shape of a trace whose attempts run one at a time.
\<close>

fun number_blocks :: "nat \<Rightarrow> call list list \<Rightarrow> event list" where
  "number_blocks n [] = []"
| "number_blocks n (b # bs) = map (Pair n) b @ number_blocks (n + length b) bs"

text \<open>
  A candidate that the loop gets past: it is filtered as unsafe, or it is attempted and
  the attempt fails with a \<open>socket.error\<close>.
\<close>

definition passed_over :: "os \<Rightarrow> timeout \<Rightarrow> sockopt list option \<Rightarrow> addrinfo \<Rightarrow> bool" where
  "passed_over os timeout socket_options res \<longleftrightarrow>
     is_unsafe res \<or> (is_safe res \<and> attempt_error os timeout socket_options res \<noteq> None)"

text \<open>The variable \<open>err\<close> after such candidates: the error of the last one attempted.\<close>

definition err_after ::
  "os \<Rightarrow> timeout \<Rightarrow> sockopt list option \<Rightarrow> addrinfo list \<Rightarrow> socket_error option \<Rightarrow>
   socket_error option" where
  "err_after os timeout socket_options results err =
     foldl (\<lambda>err res. if is_safe res then attempt_error os timeout socket_options res else err)
       err results"

text \<open>A candidate for whose family, type and protocol \<open>socket.socket\<close> raises.\<close>

definition socket_refused :: "os \<Rightarrow> addrinfo \<Rightarrow> bool" where
  "socket_refused os res \<longleftrightarrow>
     socket_fails os (ai_family res) (ai_socktype res) (ai_protocol res) \<noteq> None"

text \<open>An example: a host on which no \<open>AF_INET6\<close> socket can be created.\<close>

definition ipv4_only_os :: "addrinfo list \<Rightarrow> os" where
  "ipv4_only_os results =
     (example_os results [])
       \<lparr>socket_fails :=
          (\<lambda>af socktype proto.
             if af = 10 then Some (SocketError ''[Errno 97] Address family not supported by protocol'')
             else None)\<rparr>"

text \<open>A call that neither creates nor closes a socket.\<close>

definition plain_call :: "call \<Rightarrow> bool" where
  "plain_call c \<longleftrightarrow> (case c of Socket af st pr created \<Rightarrow> False | Close \<Rightarrow> False | _ \<Rightarrow> True)"


section \<open>The classifier and the denylist\<close>

subsection \<open>Parsed addresses are in range\<close>

lemma digit_value_range: "0 \<le> digit_value c \<and> digit_value c \<le> 15"
  by (auto simp: digit_value_def split: option.splits if_splits)

lemma foldl_digits_nonneg:
  "0 \<le> b \<Longrightarrow> 0 \<le> acc \<Longrightarrow> 0 \<le> foldl (\<lambda>acc c. acc * b + digit_value c) acc s"
proof (induction s arbitrary: acc)
  case Nil
  then show ?case by simp
next
  case (Cons c s)
  have "0 \<le> acc * b + digit_value c"
    using Cons.prems digit_value_range [of c] by simp
  then show ?case using Cons by simp
qed

lemma int_of_digits_nonneg: "0 \<le> b \<Longrightarrow> 0 \<le> int_of_digits b s"
  by (simp add: int_of_digits_def foldl_digits_nonneg)

lemma foldl_hex_bound:
  "0 \<le> acc \<Longrightarrow> acc < 16 ^ n \<Longrightarrow>
   foldl (\<lambda>acc c. acc * 16 + digit_value c) acc s < 16 ^ (n + length s)"
proof (induction s arbitrary: acc n)
  case Nil
  then show ?case by simp
next
  case (Cons c s)
  have d: "0 \<le> digit_value c" "digit_value c \<le> 15"
    using digit_value_range [of c] by simp_all
  have "acc + 1 \<le> 16 ^ n" using Cons.prems by simp
  then have "(acc + 1) * 16 \<le> 16 ^ n * 16" by (rule mult_right_mono) simp
  then have lt: "acc * 16 + digit_value c < 16 ^ Suc n"
    using d by (simp add: algebra_simps)
  have ge: "0 \<le> acc * 16 + digit_value c" using Cons.prems d by simp
  show ?case using Cons.IH [OF ge lt] by simp
qed

lemma int_of_digits_hex_bound: "int_of_digits 16 s < 16 ^ length s"
  using foldl_hex_bound [of 0 0 s] by (simp add: int_of_digits_def)

lemma parse_octet_range: "parse_octet s = Some n \<Longrightarrow> 0 \<le> n \<and> n \<le> 255"
  by (auto simp: parse_octet_def Let_def int_of_digits_nonneg split: if_splits)

lemma parse_hextet_range: "parse_hextet s = Some h \<Longrightarrow> 0 \<le> h \<and> h < 2 ^ 16"
proof -
  assume a: "parse_hextet s = Some h"
  then have h: "h = int_of_digits 16 s" and l: "length s \<le> 4"
    by (auto simp: parse_hextet_def split: if_splits)
  have "int_of_digits 16 s < 16 ^ length s" by (rule int_of_digits_hex_bound)
  also have "(16::int) ^ length s \<le> 16 ^ 4" using l by (intro power_increasing) simp_all
  finally have "h < 2 ^ 16" using h by simp
  then show ?thesis using h int_of_digits_nonneg [of 16 s] by simp
qed

lemma those_map_Some:
  "those (map f xs) = Some ys \<Longrightarrow> list_all2 (\<lambda>x y. f x = Some y) xs ys"
  by (induction xs arbitrary: ys) (auto split: option.splits)

lemma those_map_range:
  assumes "those (map f xs) = Some ys" and "\<And>x y. f x = Some y \<Longrightarrow> P y"
  shows "length ys = length xs \<and> list_all P ys"
proof -
  have "list_all2 (\<lambda>x y. f x = Some y) xs ys" using assms(1) by (rule those_map_Some)
  then show ?thesis using assms(2)
    by (induction rule: list_all2_induct) auto
qed

lemma foldl_octets_range:
  "0 \<le> acc \<Longrightarrow> acc < 256 ^ n \<Longrightarrow> list_all (\<lambda>b. 0 \<le> b \<and> b \<le> 255) bs \<Longrightarrow>
   0 \<le> foldl (\<lambda>acc b. acc * 256 + b) acc bs \<and>
   foldl (\<lambda>acc b. acc * 256 + b) acc bs < (256::int) ^ (n + length bs)"
proof (induction bs arbitrary: acc n)
  case Nil
  then show ?case by simp
next
  case (Cons b bs)
  have d: "0 \<le> b" "b \<le> 255" and r: "list_all (\<lambda>b. 0 \<le> b \<and> b \<le> 255) bs"
    using Cons.prems by simp_all
  have "acc + 1 \<le> 256 ^ n" using Cons.prems by simp
  then have "(acc + 1) * 256 \<le> 256 ^ n * 256" by (rule mult_right_mono) simp
  then have lt: "acc * 256 + b < 256 ^ Suc n"
    using d by (simp add: algebra_simps)
  have ge: "0 \<le> acc * 256 + b" using Cons.prems d by simp
  show ?case using Cons.IH [OF ge lt r] by simp
qed

lemma ipv4_address_range: "ipv4_address s = Some i \<Longrightarrow> 0 \<le> i \<and> i < 2 ^ 32"
proof -
  assume "ipv4_address s = Some i"
  then obtain bs where t: "those (map parse_octet (str_split (CHR ''.'') s)) = Some bs"
    and len: "length (str_split (CHR ''.'') s) = 4"
    and i: "i = foldl (\<lambda>acc b. acc * 256 + b) 0 bs"
    by (auto simp: ipv4_address_def ipv4_int_from_string_def Let_def
             split: if_splits option.splits)
  have "length bs = length (str_split (CHR ''.'') s) \<and> list_all (\<lambda>b. 0 \<le> b \<and> b \<le> 255) bs"
    using t by (rule those_map_range) (rule parse_octet_range)
  then have "length bs = 4" and "list_all (\<lambda>b. 0 \<le> b \<and> b \<le> 255) bs"
    using len by simp_all
  then show ?thesis
    using foldl_octets_range [of 0 0 bs] i by simp
qed

lemma shift_hextets_range:
  "0 \<le> acc \<Longrightarrow> acc < 2 ^ n \<Longrightarrow> list_all (\<lambda>h. 0 \<le> h \<and> h < 2 ^ 16) hs \<Longrightarrow>
   0 \<le> shift_hextets acc hs \<and> shift_hextets acc hs < 2 ^ (n + 16 * length hs)"
proof (induction hs arbitrary: acc n)
  case Nil
  then show ?case by (simp add: shift_hextets_def)
next
  case (Cons h hs)
  have d: "0 \<le> h" "h < 2 ^ 16" and r: "list_all (\<lambda>h. 0 \<le> h \<and> h < 2 ^ 16) hs"
    using Cons.prems by simp_all
  let ?a = "push_bit 16 acc OR h"
  have ge: "0 \<le> ?a" using Cons.prems(1) d(1) by simp
  have p: "push_bit 16 acc < 2 ^ (n + 16)"
    using Cons.prems(1,2) by (simp add: push_bit_eq_mult power_add)
  have "h < 2 ^ (n + 16)"
  proof -
    have "(2::int) ^ 16 \<le> 2 ^ (n + 16)" by (intro power_increasing) simp_all
    then show ?thesis using d(2) by linarith
  qed
  then have lt: "?a < 2 ^ (n + 16)"
    using p Cons.prems(1) d(1) by (intro OR_upper) simp_all
  have "0 \<le> shift_hextets ?a hs \<and> shift_hextets ?a hs < 2 ^ ((n + 16) + 16 * length hs)"
    by (rule Cons.IH [OF ge lt r])
  then show ?case by (simp add: shift_hextets_def add.assoc)
qed

lemma ipv6_layout_count:
  assumes "ipv6_layout parts = Some (parts_hi, parts_lo, parts_skipped)"
  shows "parts_hi + parts_skipped + parts_lo \<le> 8"
  using assms
  by (auto simp: ipv6_layout_def Let_def split: if_splits list.splits)

lemma ipv6_assemble_range:
  assumes "ipv6_assemble parts (parts_hi, parts_lo, parts_skipped) = Some i"
      and cnt: "parts_hi + parts_skipped + parts_lo \<le> 8"
  shows "0 \<le> i \<and> i < 2 ^ 128"
proof -
  from assms(1) obtain his los where
      t1: "those (map parse_hextet (take parts_hi parts)) = Some his"
  and t2: "those (map parse_hextet (drop (length parts - parts_lo) parts)) = Some los"
  and i: "i = shift_hextets (push_bit (16 * parts_skipped) (shift_hextets 0 his)) los"
    by (auto simp: ipv6_assemble_def split: option.splits)
  have h: "length his = length (take parts_hi parts) \<and> list_all (\<lambda>h. 0 \<le> h \<and> h < 2 ^ 16) his"
    using t1 by (rule those_map_range) (rule parse_hextet_range)
  have l: "length los = length (drop (length parts - parts_lo) parts) \<and> list_all (\<lambda>h. 0 \<le> h \<and> h < 2 ^ 16) los"
    using t2 by (rule those_map_range) (rule parse_hextet_range)
  have lh: "length his \<le> parts_hi" using h by simp
  have ll: "length los \<le> parts_lo" using l by simp
  have a: "0 \<le> shift_hextets 0 his \<and> shift_hextets 0 his < 2 ^ (0 + 16 * length his)"
    using h by (intro shift_hextets_range) simp_all
  let ?m = "push_bit (16 * parts_skipped) (shift_hextets 0 his)"
  have m0: "0 \<le> ?m" using a by simp
  have m1: "?m < 2 ^ (16 * length his + 16 * parts_skipped)"
    using a by (simp add: push_bit_eq_mult power_add)
  have b: "0 \<le> shift_hextets ?m los \<and>
           shift_hextets ?m los < 2 ^ ((16 * length his + 16 * parts_skipped) + 16 * length los)"
    using m0 m1 l by (intro shift_hextets_range) simp_all
  have "(16 * length his + 16 * parts_skipped) + 16 * length los \<le> 128"
    using lh ll cnt by simp
  then have "(2::int) ^ ((16 * length his + 16 * parts_skipped) + 16 * length los) \<le> 2 ^ 128"
    by (intro power_increasing) simp_all
  then show ?thesis using b i by linarith
qed

lemma ipv6_int_from_string_range:
  assumes "ipv6_int_from_string s = Some i"
  shows "0 \<le> i \<and> i < 2 ^ 128"
proof -
  from assms obtain parts layout where
    "ipv6_layout parts = Some layout" "ipv6_assemble parts layout = Some i"
    by (auto simp: ipv6_int_from_string_def split: option.splits)
  then show ?thesis
    using ipv6_layout_count ipv6_assemble_range by (cases layout) blast
qed

lemma ip_address_range:
  assumes "ip_address s = Inr a"
  shows "0 \<le> ip_int a \<and> ip_int a < 2 ^ max_prefixlen (version a)"
proof (cases "ipv4_address s")
  case (Some i)
  then have "a = IPv4Address i" using assms by (simp add: ip_address_def)
  then show ?thesis using ipv4_address_range [OF Some] by (simp add: max_prefixlen_def)
next
  case None
  then obtain i scope where v6: "ipv6_address s = Some (i, scope)" and a: "a = IPv6Address i scope"
    using assms by (auto simp: ip_address_def split: option.splits)
  from v6 obtain s' where "ipv6_int_from_string s' = Some i"
    by (auto simp: ipv6_address_def split: if_splits option.splits)
  then show ?thesis using ipv6_int_from_string_range a by (simp add: max_prefixlen_def)
qed

subsection \<open>The netmask test is membership in the block\<close>

lemma ip_int_from_prefix_bit:
  "bit (ip_int_from_prefix v p) i \<longleftrightarrow> max_prefixlen v - p \<le> i \<and> i < max_prefixlen v"
proof -
  have "ALL_ONES v = mask (max_prefixlen v)"
    by (simp add: ALL_ONES_def mask_eq_exp_minus_1)
  then show ?thesis
    by (auto simp: ip_int_from_prefix_def bit_xor_iff bit_drop_bit_eq bit_mask_iff)
qed

lemma and_netmask:
  assumes "0 \<le> a" "a < 2 ^ max_prefixlen v"
  shows "a AND ip_int_from_prefix v p = push_bit (max_prefixlen v - p) (drop_bit (max_prefixlen v - p) a)"
proof (rule bit_eqI)
  fix i
  have "take_bit (max_prefixlen v) a = a" using assms by (simp add: take_bit_int_eq_self)
  then have "bit a i \<Longrightarrow> i < max_prefixlen v"
    by (metis bit_take_bit_iff)
  then show "bit (a AND ip_int_from_prefix v p) i \<longleftrightarrow>
        bit (push_bit (max_prefixlen v - p) (drop_bit (max_prefixlen v - p) a)) i"
    by (auto simp: bit_and_iff ip_int_from_prefix_bit bit_push_bit_iff bit_drop_bit_eq)
qed

lemma and_netmask_mult:
  assumes "0 \<le> a" "a < 2 ^ max_prefixlen v"
  shows "a AND ip_int_from_prefix v p =
         2 ^ (max_prefixlen v - p) * (a div 2 ^ (max_prefixlen v - p))"
  unfolding and_netmask [OF assms] push_bit_eq_mult drop_bit_eq_div
  by (rule mult.commute)

lemma div_eq_interval:
  fixes a q d :: int
  assumes "0 < d"
  shows "d * (a div d) = d * q \<longleftrightarrow> d * q \<le> a \<and> a < d * q + d"
proof
  assume "d * (a div d) = d * q"
  then have q: "a div d = q" using assms by simp
  have "a = d * (a div d) + a mod d" by simp
  moreover have "0 \<le> a mod d" "a mod d < d" using assms by simp_all
  ultimately show "d * q \<le> a \<and> a < d * q + d" using q by auto
next
  assume h: "d * q \<le> a \<and> a < d * q + d"
  have "a div d = q"
  proof (rule int_div_pos_eq)
    show "a = d * q + (a - d * q)" by simp
    show "0 \<le> a - d * q" using h by simp
    show "a - d * q < d" using h by simp
  qed
  then show "d * (a div d) = d * q" by simp
qed

lemma contains_iff_in_cidr:
  assumes a: "0 \<le> ip_int a" "ip_int a < 2 ^ max_prefixlen (version a)"
      and m: "netmask n = ip_int_from_prefix (net_version n) (prefixlen n)"
      and h: "network_address n AND netmask n = network_address n"
      and r: "0 \<le> network_address n" "network_address n < 2 ^ max_prefixlen (net_version n)"
  shows "contains n a \<longleftrightarrow> in_cidr (net_version n, network_address n, prefixlen n) a"
proof (cases "net_version n = version a")
  case False
  then show ?thesis by (auto simp: contains_def in_cidr_def)
next
  case True
  define k where "k = max_prefixlen (version a) - prefixlen n"
  define d :: int where "d = 2 ^ k"
  have d: "0 < d" by (simp add: d_def)
  have n: "network_address n = d * (network_address n div d)"
    using and_netmask_mult [OF r, of "prefixlen n"] h m True
    by (simp add: k_def d_def)
  have "ip_int a AND netmask n = d * (ip_int a div d)"
    using and_netmask_mult [OF a, of "prefixlen n"] m True
    by (simp add: k_def d_def)
  then have "contains n a \<longleftrightarrow> d * (ip_int a div d) = d * (network_address n div d)"
    using True n by (simp add: contains_def)
  also have "\<dots> \<longleftrightarrow> d * (network_address n div d) \<le> ip_int a \<and>
                  ip_int a < d * (network_address n div d) + d"
    by (rule div_eq_interval [OF d])
  also have "\<dots> \<longleftrightarrow> in_cidr (net_version n, network_address n, prefixlen n) a"
    using n True by (simp add: in_cidr_def k_def d_def)
  finally show ?thesis .
qed

subsection \<open>The table of the module is the list of the specification\<close>

lemma unsafe_literals_parse:
  "map ip_network UNSAFE_NETWORK_LITERALS = map Inr UNSAFE_NETWORKS"
  by code_simp

lemma unsafe_networks_ok: "list_all net_ok UNSAFE_NETWORKS"
  by code_simp

lemma unsafe_networks_cidrs:
  "map cidr_of UNSAFE_NETWORKS =
     [cidr4 10 0 0 0 8, cidr4 172 16 0 0 12, cidr4 192 168 0 0 16,
      cidr4 169 254 0 0 16, cidr4 100 64 0 0 10, cidr4 127 0 0 0 8,
      cidr4 0 0 0 0 32, cidr4 192 0 0 0 24, cidr4 192 0 2 0 24,
      cidr4 192 88 99 0 24, cidr4 198 18 0 0 15, cidr4 198 51 100 0 24,
      cidr4 203 0 113 0 24, cidr4 224 0 0 0 4, cidr4 240 0 0 0 4,
      cidr4 255 255 255 255 32] @ SPEC_DENYLIST_V6"
  by code_simp

lemma unsafe_networks_set:
  "set (map cidr_of UNSAFE_NETWORKS) = set (SPEC_DENYLIST_V4 @ SPEC_DENYLIST_V6)"
  unfolding unsafe_networks_cidrs by (auto simp: SPEC_DENYLIST_V4_def)

lemma in_any_iff: "in_any ns a \<longleftrightarrow> (\<exists>n\<in>set ns. contains n a)"
  by (induction ns) auto

lemma in_unsafe_iff:
  assumes "ip_address s = Inr a"
  shows "in_any UNSAFE_NETWORKS a \<longleftrightarrow> list_ex (\<lambda>r. in_cidr r a) (SPEC_DENYLIST_V4 @ SPEC_DENYLIST_V6)"
proof -
  have r: "0 \<le> ip_int a" "ip_int a < 2 ^ max_prefixlen (version a)"
    using ip_address_range [OF assms] by simp_all
  have "contains n a \<longleftrightarrow> in_cidr (cidr_of n) a" if "n \<in> set UNSAFE_NETWORKS" for n
  proof -
    have "net_ok n" using that unsafe_networks_ok by (simp add: list_all_iff)
    then have "netmask n = ip_int_from_prefix (net_version n) (prefixlen n)"
      and "network_address n AND netmask n = network_address n"
      and "0 \<le> network_address n"
      and "network_address n < 2 ^ max_prefixlen (net_version n)"
      unfolding net_ok_def by blast+
    then show ?thesis
      unfolding cidr_of_def by (rule contains_iff_in_cidr [OF r])
  qed
  then have "in_any UNSAFE_NETWORKS a \<longleftrightarrow> (\<exists>r\<in>set (map cidr_of UNSAFE_NETWORKS). in_cidr r a)"
    by (simp add: in_any_iff)
  then show ?thesis
    unfolding unsafe_networks_set by (simp add: list_ex_iff)
qed

text \<open>
  Claim C1. For every string that \<open>ipaddress.ip_address\<close> accepts, \<open>ip_is_safe\<close>
  returns \<open>False\<close> if and only if the address lies in one of the CIDR ranges of the
  specification (sixteen for IPv4, thirteen for IPv6) of the address's version, and
  \<open>True\<close> otherwise; \<open>8.8.8.8\<close> and \<open>2606:2800:220:1:248:1893:25c8:1946\<close> are
  safe.
\<close>

theorem ip_is_safe_iff_outside_denylist:
  "(\<forall>s a. ip_address s = Inr a \<longrightarrow>
      ip_is_safe s = Inr (\<not> list_ex (\<lambda>r. in_cidr r a) (SPEC_DENYLIST_V4 @ SPEC_DENYLIST_V6)))
   \<and> length SPEC_DENYLIST_V4 = 16 \<and> length SPEC_DENYLIST_V6 = 13
   \<and> ip_is_safe ''8.8.8.8'' = Inr True
   \<and> ip_is_safe ''2606:2800:220:1:248:1893:25c8:1946'' = Inr True"
proof -
  have a: "ip_is_safe ''8.8.8.8'' = Inr True" by code_simp
  have b: "ip_is_safe ''2606:2800:220:1:248:1893:25c8:1946'' = Inr True" by code_simp
  have c: "length SPEC_DENYLIST_V4 = 16" "length SPEC_DENYLIST_V6 = 13"
    by (simp_all add: SPEC_DENYLIST_V4_def SPEC_DENYLIST_V6_def)
  show ?thesis using a b c in_unsafe_iff by (simp add: ip_is_safe_def)
qed

theorem ip_is_safe_iff_outside_denylist_witness:
  "ip_address ''10.10.10.58'' = Inr (IPv4Address 168430138)
   \<and> list_ex (\<lambda>r. in_cidr r (IPv4Address 168430138)) (SPEC_DENYLIST_V4 @ SPEC_DENYLIST_V6)
   \<and> ip_is_safe ''10.10.10.58'' = Inr False"
proof -
  have p: "ip_address ''10.10.10.58'' = Inr (IPv4Address 168430138)" by code_simp
  have m: "list_ex (\<lambda>r. in_cidr r (IPv4Address 168430138)) (SPEC_DENYLIST_V4 @ SPEC_DENYLIST_V6)"
    by code_simp
  show ?thesis using ip_is_safe_iff_outside_denylist p m by simp
qed

text \<open>
  Claim C7. On a string that is neither an IPv4 nor an IPv6 literal, \<open>ip_is_safe\<close>
  raises the \<open>ValueError\<close> of \<open>ipaddress.ip_address\<close>; it returns no verdict. In a
  dial, a candidate with such an address is not passed over as a filtered one is: the
  \<open>ValueError\<close> ends \<open>create_connection\<close>'s pass over the candidates.
\<close>

theorem ip_is_safe_invalid_raises:
  assumes "ipv4_address s = None" and "ipv6_address s = None"
  shows "ip_is_safe s =
           Inl (ValueError (repr s @ '' does not appear to be an IPv4 or IPv6 address''))
         \<and> ip_is_safe s \<noteq> Inr False \<and> ip_is_safe s \<noteq> Inr True
         \<and> (\<forall>os timeout socket_options res rest err tr.
               sa_host (ai_addr res) = s \<longrightarrow>
               connect_loop os timeout socket_options (res # rest) err tr =
                 (Inl (ValueError (repr s @ '' does not appear to be an IPv4 or IPv6 address'')),
                  tr))"
  using assms by (simp add: ip_is_safe_def ip_address_def)

theorem ip_is_safe_invalid_raises_witness:
  "ipv4_address ''localhost'' = None \<and> ipv6_address ''localhost'' = None
   \<and> ip_is_safe ''localhost'' =
       Inl (ValueError (repr ''localhost'' @ '' does not appear to be an IPv4 or IPv6 address''))
   \<and> connect_loop (example_os [] []) GLOBAL_DEFAULT_TIMEOUT (Some [])
         [cand4 ''localhost'' 80, cand4 ''93.184.216.34'' 80] None [] =
       (Inl (ValueError (repr ''localhost'' @ '' does not appear to be an IPv4 or IPv6 address'')),
        [])"
proof -
  have a: "ipv4_address ''localhost'' = None" by code_simp
  have b: "ipv6_address ''localhost'' = None" by code_simp
  have c: "sa_host (ai_addr (cand4 ''localhost'' 80)) = ''localhost''"
    by (simp add: cand4_def)
  show ?thesis using ip_is_safe_invalid_raises [OF a b] a b c by blast
qed

section \<open>Evaluation of the examples\<close>

lemma ip_is_safe_examples:
  "ip_is_safe ''93.184.216.34'' = Inr True"
  "ip_is_safe ''93.184.216.35'' = Inr True"
  "ip_is_safe ''10.10.10.58'' = Inr False"
  "ip_is_safe ''2001:db8::1'' = Inr False"
  "ip_is_safe ''2606:2800:220:1:248:1893:25c8:1946'' = Inr True"
  by code_simp+

lemma cand_examples:
  "is_safe (cand4 ''93.184.216.34'' p)" "is_safe (cand4 ''93.184.216.35'' p)"
  "is_unsafe (cand4 ''10.10.10.58'' p)" "is_unsafe (cand6 ''2001:db8::1'' p)"
  "is_safe (cand6 ''2606:2800:220:1:248:1893:25c8:1946'' p)"
  "\<not> is_unsafe (cand6 ''2606:2800:220:1:248:1893:25c8:1946'' p)"
  "\<not> is_unsafe (cand4 ''93.184.216.34'' p)" "\<not> is_unsafe (cand4 ''93.184.216.35'' p)"
  "\<not> is_safe (cand4 ''10.10.10.58'' p)" "\<not> is_safe (cand6 ''2001:db8::1'' p)"
  by (simp_all add: is_safe_def is_unsafe_def cand4_def cand6_def ip_is_safe_examples)


lemma cand_fields:
  "ai_family (cand4 ip p) = 2" "ai_socktype (cand4 ip p) = 1" "ai_protocol (cand4 ip p) = 6"
  "ai_addr (cand4 ip p) = SockAddr4 ip p"
  "ai_family (cand6 ip p) = 10" "ai_socktype (cand6 ip p) = 1" "ai_protocol (cand6 ip p) = 6"
  "ai_addr (cand6 ip p) = SockAddr6 ip p 0 0"
  by (simp_all add: cand4_def cand6_def)

lemmas eval_dial =
  cand_fields cand_examples try_body_def attempt_error_def attempt_calls_def passed_over_def
  connects_def set_timeout_def settimeout_fails_def example_os_def no_socket_os_def
  ipv4_only_os_def socket_refused_def
  create_connection_def dial_host_def new_conn_def extra_kw_def rstrip_def full_attempt_def
  str_timeout_def str_int_def surfaced_def resolving_to_def Let_def


section \<open>The dial\<close>

subsection \<open>One step of the loop\<close>

lemma loop_unsafe:
  "is_unsafe res \<Longrightarrow>
   connect_loop os t so (res # rest) err tr = connect_loop os t so rest err tr"
  by (simp add: is_unsafe_def)

lemma loop_not_literal:
  "ip_is_safe (sa_host (ai_addr res)) = Inl e \<Longrightarrow>
   connect_loop os t so (res # rest) err tr = (Inl e, tr)"
  by simp

lemma loop_connects:
  "connects os t so res \<Longrightarrow>
   connect_loop os t so (res # rest) err tr =
     (Inr (length tr), tr @ map (Pair (length tr)) (snd (snd (try_body os t so res))))"
  by (cases "try_body os t so res") (simp add: connects_def is_safe_def)

lemma loop_fails:
  "is_safe res \<Longrightarrow> attempt_error os t so res = Some e \<Longrightarrow>
   connect_loop os t so (res # rest) err tr =
     connect_loop os t so rest (Some e)
       (tr @ map (Pair (length tr))
          (snd (snd (try_body os t so res)) @
           (if fst (snd (try_body os t so res)) then [Close] else [])))"
  by (cases "try_body os t so res")
     (auto simp: attempt_error_def is_safe_def split: option.splits exn.splits)

lemma loop_drop_unsafe:
  "connect_loop os t so (drop_unsafe cands) err tr = connect_loop os t so cands err tr"
proof (induction cands arbitrary: err tr)
  case Nil
  show ?case by (simp add: drop_unsafe_def)
next
  case (Cons res rest)
  have IH: "\<And>err tr. connect_loop os t so (filter (\<lambda>res. \<not> is_unsafe res) rest) err tr =
              connect_loop os t so rest err tr"
    using Cons.IH by (simp add: drop_unsafe_def)
  show ?case
  proof (cases "is_unsafe res")
    case True
    then show ?thesis using IH by (simp add: drop_unsafe_def is_unsafe_def)
  next
    case False
    then show ?thesis using IH
      by (auto simp: drop_unsafe_def is_unsafe_def split: sum.splits prod.splits option.splits exn.splits)
  qed
qed

lemma loop_all_unsafe:
  "list_all is_unsafe cands \<Longrightarrow> connect_loop os t so cands err tr = connect_loop os t so [] err tr"
  by (induction cands) (simp_all add: loop_unsafe del: connect_loop.simps)

subsection \<open>Unsafe candidates\<close>

lemma create_connection_resolved:
  "getaddrinfo os (dial_host host) port = Inr cands \<Longrightarrow>
   create_connection os (host, port) t so = connect_loop os t so cands None []"
  by (simp add: create_connection_def)

lemma set_options_resolver:
  "set_options (os\<lparr>getaddrinfo := g\<rparr>) opts = set_options os opts"
  by (induction opts) (simp_all split: option.splits)

lemma try_body_resolver:
  "try_body (os\<lparr>getaddrinfo := g\<rparr>) t so res = try_body os t so res"
  by (simp add: try_body_def set_options_resolver Let_def split: option.splits prod.splits)

lemma connect_loop_resolver:
  "connect_loop (os\<lparr>getaddrinfo := g\<rparr>) t so cands err tr = connect_loop os t so cands err tr"
  by (induction cands arbitrary: err tr)
     (simp_all add: try_body_resolver split: sum.splits prod.splits option.splits exn.splits)

text \<open>
  Claim C2. The result of \<open>create_connection\<close> and the calls it makes are the same
  when the resolver's list has its unsafe candidates removed. A list of unsafe
  candidates only is dialled as the empty list is. An unsafe candidate leaves \<open>err\<close>
  and the trace as they are: no socket, no recorded error.
\<close>

theorem unsafe_candidates_invisible:
  "create_connection (without_unsafe os) address timeout socket_options =
     create_connection os address timeout socket_options
   \<and> (\<forall>results. list_all is_unsafe results \<longrightarrow>
         create_connection (resolving_to results os) address timeout socket_options =
         create_connection (resolving_to [] os) address timeout socket_options)
   \<and> (\<forall>res rest err tr. is_unsafe res \<longrightarrow>
         connect_loop os timeout socket_options (res # rest) err tr =
         connect_loop os timeout socket_options rest err tr)"
proof -
  obtain host port where a: "address = (host, port)" by (cases address)
  have 1: "create_connection (without_unsafe os) address timeout socket_options =
     create_connection os address timeout socket_options"
    unfolding a create_connection_def
    by (cases "getaddrinfo os (dial_host host) port")
       (simp_all add: without_unsafe_def loop_drop_unsafe connect_loop_resolver)
  have 2: "create_connection (resolving_to results os) address timeout socket_options =
         create_connection (resolving_to [] os) address timeout socket_options"
    if "list_all is_unsafe results" for results
    unfolding a create_connection_def resolving_to_def
    using loop_all_unsafe [OF that] by (simp add: connect_loop_resolver)
  show ?thesis using 1 2 loop_unsafe by blast
qed

theorem unsafe_candidates_invisible_witness:
  "is_unsafe (cand6 ''2001:db8::1'' 80)
   \<and> create_connection (resolving_to [cand6 ''2001:db8::1'' 80] (example_os [] []))
        (''example.com'', 80) GLOBAL_DEFAULT_TIMEOUT (Some [(6, 1, 1)]) =
      create_connection (resolving_to [] (example_os [] []))
        (''example.com'', 80) GLOBAL_DEFAULT_TIMEOUT (Some [(6, 1, 1)])
   \<and> create_connection (resolving_to [] (example_os [] []))
        (''example.com'', 80) GLOBAL_DEFAULT_TIMEOUT (Some [(6, 1, 1)]) =
      (Inl (OSError (SocketError ''getaddrinfo returns an empty list'')), [])"
proof -
  have u: "is_unsafe (cand6 ''2001:db8::1'' 80)" by code_simp
  have e: "create_connection (resolving_to [] (example_os [] []))
        (''example.com'', 80) GLOBAL_DEFAULT_TIMEOUT (Some [(6, 1, 1)]) =
      (Inl (OSError (SocketError ''getaddrinfo returns an empty list'')), [])"
    by (simp add: create_connection_def resolving_to_def)
  show ?thesis
    using unsafe_candidates_invisible [of "example_os [] []" "(''example.com'', 80)"
        GLOBAL_DEFAULT_TIMEOUT "Some [(6, 1, 1)]"] u e
    by simp
qed

subsection \<open>The first candidate that connects\<close>

lemma number_blocks_append:
  "number_blocks n (bs @ cs) = number_blocks n bs @ number_blocks (n + length (concat bs)) cs"
  by (induction bs arbitrary: n) (simp_all add: add.assoc)

lemma length_number_blocks: "length (number_blocks n bs) = length (concat bs)"
  by (induction bs arbitrary: n) simp_all

lemma map_snd_number_blocks: "map snd (number_blocks n bs) = concat bs"
  by (induction bs arbitrary: n) (simp_all add: comp_def)

lemma safe_not_unsafe: "is_safe x \<Longrightarrow> \<not> is_unsafe x"
  by (simp add: is_safe_def is_unsafe_def)

lemma loop_through:
  assumes "list_all (passed_over os t so) pre"
  shows "connect_loop os t so (pre @ rest) err tr =
         connect_loop os t so rest (err_after os t so pre err)
           (tr @ number_blocks (length tr) (map (attempt_calls os t so) (filter is_safe pre)))"
  using assms
proof (induction pre arbitrary: err tr)
  case Nil
  show ?case by (simp add: err_after_def)
next
  case (Cons x pre)
  have p: "list_all (passed_over os t so) pre" using Cons.prems by simp
  show ?case
  proof (cases "is_unsafe x")
    case True
    then have "\<not> is_safe x" using safe_not_unsafe by blast
    then show ?thesis
      using True Cons.IH [OF p, of err tr]
      by (simp add: loop_unsafe err_after_def del: connect_loop.simps)
  next
    case False
    then obtain e where s: "is_safe x" and e: "attempt_error os t so x = Some e"
      using Cons.prems by (auto simp: passed_over_def)
    let ?b = "attempt_calls os t so x"
    have b: "?b = snd (snd (try_body os t so x)) @
           (if fst (snd (try_body os t so x)) then [Close] else [])"
      using e by (simp add: attempt_calls_def)
    have "connect_loop os t so ((x # pre) @ rest) err tr =
          connect_loop os t so (pre @ rest) (Some e) (tr @ map (Pair (length tr)) ?b)"
      using loop_fails [OF s e] b by (simp del: connect_loop.simps)
    also have "\<dots> = connect_loop os t so rest (err_after os t so pre (Some e))
           ((tr @ map (Pair (length tr)) ?b) @
            number_blocks (length (tr @ map (Pair (length tr)) ?b))
              (map (attempt_calls os t so) (filter is_safe pre)))"
      by (rule Cons.IH [OF p])
    finally show ?thesis using s e by (simp add: err_after_def del: connect_loop.simps)
  qed
qed

lemma try_body_connects_options:
  "fst (try_body os t so c) = None \<Longrightarrow> so \<noteq> None \<and> fst (set_timeout t) = None"
  by (auto simp: try_body_def Let_def split: option.splits prod.splits)

lemma set_options_calls:
  "fst (set_options os opts) = None \<Longrightarrow> snd (set_options os opts) = map Setsockopt opts"
  by (induction opts) (auto split: option.splits prod.splits)

lemma set_timeout_calls:
  "snd (set_timeout t) = (case t of GLOBAL_DEFAULT_TIMEOUT \<Rightarrow> [] | Timeout v \<Rightarrow> [Settimeout v])"
  by (simp add: set_timeout_def split: timeout.splits)

lemma try_body_connects_calls:
  assumes "fst (try_body os t (Some opts) c) = None"
  shows "snd (snd (try_body os t (Some opts) c)) = full_attempt opts t c"
proof -
  obtain r1 c1 where o: "set_options os opts = (r1, c1)" by (cases "set_options os opts")
  obtain r2 c2 where s: "set_timeout t = (r2, c2)" by (cases "set_timeout t")
  from assms o s have r: "r1 = None" "r2 = None"
    by (auto simp: try_body_def Let_def split: option.splits)
  have "c1 = map Setsockopt opts" using set_options_calls [of os opts] o r by simp
  moreover have "c2 = (case t of GLOBAL_DEFAULT_TIMEOUT \<Rightarrow> [] | Timeout v \<Rightarrow> [Settimeout v])"
    using set_timeout_calls [of t] s by simp
  ultimately show ?thesis using assms o s r
    by (auto simp: try_body_def Let_def full_attempt_def split: option.splits)
qed

lemma try_body_error_kind:
  assumes "fst (set_timeout t) = None"
  shows "fst (try_body os t (Some opts) x) = None \<or>
         (\<exists>e. fst (try_body os t (Some opts) x) = Some (OSError e))"
proof -
  obtain r1 c1 where o: "set_options os opts = (r1, c1)" by (cases "set_options os opts")
  obtain r2 c2 where s: "set_timeout t = (r2, c2)" by (cases "set_timeout t")
  show ?thesis using assms o s
    by (auto simp: try_body_def Let_def split: option.splits)
qed

lemma not_connecting_passed_over:
  assumes c: "connects os t (Some opts) c"
      and x: "is_literal x" "\<not> connects os t (Some opts) x"
  shows "passed_over os t (Some opts) x"
proof (cases "is_unsafe x")
  case True
  then show ?thesis by (simp add: passed_over_def)
next
  case False
  then have s: "is_safe x" using x(1)
    by (auto simp: is_literal_def is_safe_def is_unsafe_def split: sum.splits)
  have "fst (set_timeout t) = None"
    using c try_body_connects_options by (auto simp: connects_def)
  then have "fst (try_body os t (Some opts) x) = None \<or>
         (\<exists>e. fst (try_body os t (Some opts) x) = Some (OSError e))"
    by (rule try_body_error_kind)
  then obtain e where "fst (try_body os t (Some opts) x) = Some (OSError e)"
    using x(2) s by (auto simp: connects_def)
  then show ?thesis using s by (simp add: passed_over_def attempt_error_def)
qed

text \<open>
  Claim C4. Let the resolver's list be \<open>pre @ c # post\<close>, where \<open>c\<close> is safe and its
  attempt connects, and every candidate of \<open>pre\<close> is an IP literal that is not both safe
  and connecting. Then \<open>create_connection\<close> returns the socket of \<open>c\<close>'s attempt. Its
  calls are the attempts on the safe candidates of \<open>pre\<close>, one block after the other in
  the resolver's order, then the complete attempt on \<open>c\<close>; nothing is called for
  \<open>post\<close>.
\<close>

theorem first_connectable_wins:
  assumes r: "getaddrinfo os (dial_host host) port = Inr (pre @ c # post)"
      and p: "list_all (\<lambda>x. is_literal x \<and> \<not> connects os timeout (Some opts) x) pre"
      and c: "connects os timeout (Some opts) c"
  shows "create_connection os (host, port) timeout (Some opts) =
           (Inr (length (concat (map (attempt_calls os timeout (Some opts)) (filter is_safe pre)))),
            number_blocks 0
              (map (attempt_calls os timeout (Some opts)) (filter is_safe pre) @
               [full_attempt opts timeout c]))"
proof -
  let ?so = "Some opts"
  let ?bs = "map (attempt_calls os timeout ?so) (filter is_safe pre)"
  have "list_all (passed_over os timeout ?so) pre"
    using p not_connecting_passed_over [OF c] by (simp add: list_all_iff)
  then have "connect_loop os timeout ?so (pre @ c # post) None [] =
        connect_loop os timeout ?so (c # post) (err_after os timeout ?so pre None)
          ([] @ number_blocks (length ([]::event list)) ?bs)"
    by (rule loop_through)
  also have "\<dots> = (Inr (length (number_blocks 0 ?bs)),
                  number_blocks 0 ?bs @
                  map (Pair (length (number_blocks 0 ?bs))) (snd (snd (try_body os timeout ?so c))))"
    using loop_connects [OF c] by (simp del: connect_loop.simps)
  also have "snd (snd (try_body os timeout ?so c)) = full_attempt opts timeout c"
    using c by (intro try_body_connects_calls) (simp add: connects_def)
  finally show ?thesis
    using r by (simp add: create_connection_def number_blocks_append length_number_blocks)
qed

theorem first_connectable_wins_witness:
  "list_all (\<lambda>x. is_literal x \<and>
        \<not> connects (example_os [cand4 ''10.10.10.58'' 80, cand4 ''93.184.216.35'' 80,
                      cand4 ''93.184.216.34'' 80, cand6 ''2606:2800:220:1:248:1893:25c8:1946'' 80]
                     [(''93.184.216.35'', SocketError ''[Errno 111] Connection refused'')])
             GLOBAL_DEFAULT_TIMEOUT (Some [(6, 1, 1)]) x)
     [cand4 ''10.10.10.58'' 80, cand4 ''93.184.216.35'' 80]
   \<and> connects (example_os [cand4 ''10.10.10.58'' 80, cand4 ''93.184.216.35'' 80,
                      cand4 ''93.184.216.34'' 80, cand6 ''2606:2800:220:1:248:1893:25c8:1946'' 80]
                     [(''93.184.216.35'', SocketError ''[Errno 111] Connection refused'')])
         GLOBAL_DEFAULT_TIMEOUT (Some [(6, 1, 1)]) (cand4 ''93.184.216.34'' 80)
   \<and> create_connection
        (example_os [cand4 ''10.10.10.58'' 80, cand4 ''93.184.216.35'' 80,
                      cand4 ''93.184.216.34'' 80, cand6 ''2606:2800:220:1:248:1893:25c8:1946'' 80]
                     [(''93.184.216.35'', SocketError ''[Errno 111] Connection refused'')])
        (''example.com'', 80) GLOBAL_DEFAULT_TIMEOUT (Some [(6, 1, 1)]) =
      (Inr 4,
       [(0, Socket 2 1 6 True), (0, Setsockopt (6, 1, 1)),
        (0, Connect (SockAddr4 ''93.184.216.35'' 80)), (0, Close),
        (4, Socket 2 1 6 True), (4, Setsockopt (6, 1, 1)),
        (4, Connect (SockAddr4 ''93.184.216.34'' 80))])"
proof -
  let ?os = "example_os [cand4 ''10.10.10.58'' 80, cand4 ''93.184.216.35'' 80,
                      cand4 ''93.184.216.34'' 80, cand6 ''2606:2800:220:1:248:1893:25c8:1946'' 80]
                     [(''93.184.216.35'', SocketError ''[Errno 111] Connection refused'')]"
  have r: "getaddrinfo ?os (dial_host ''example.com'') 80 =
        Inr ([cand4 ''10.10.10.58'' 80, cand4 ''93.184.216.35'' 80] @
             cand4 ''93.184.216.34'' 80 # [cand6 ''2606:2800:220:1:248:1893:25c8:1946'' 80])"
    by (simp add: example_os_def)
  have p: "list_all (\<lambda>x. is_literal x \<and> \<not> connects ?os GLOBAL_DEFAULT_TIMEOUT (Some [(6, 1, 1)]) x)
     [cand4 ''10.10.10.58'' 80, cand4 ''93.184.216.35'' 80]"
    by (simp add: eval_dial is_literal_def ip_is_safe_examples)
  have c: "connects ?os GLOBAL_DEFAULT_TIMEOUT (Some [(6, 1, 1)]) (cand4 ''93.184.216.34'' 80)"
    by (simp add: eval_dial)
  have e: "(Inr (length (concat (map (attempt_calls ?os GLOBAL_DEFAULT_TIMEOUT (Some [(6, 1, 1)]))
                 (filter is_safe [cand4 ''10.10.10.58'' 80, cand4 ''93.184.216.35'' 80])))),
            number_blocks 0
              (map (attempt_calls ?os GLOBAL_DEFAULT_TIMEOUT (Some [(6, 1, 1)]))
                 (filter is_safe [cand4 ''10.10.10.58'' 80, cand4 ''93.184.216.35'' 80]) @
               [full_attempt [(6, 1, 1)] GLOBAL_DEFAULT_TIMEOUT (cand4 ''93.184.216.34'' 80)])) =
      (Inr 4 :: exn + sock,
       [(0, Socket 2 1 6 True), (0, Setsockopt (6, 1, 1)),
        (0, Connect (SockAddr4 ''93.184.216.35'' 80)), (0, Close),
        (4, Socket 2 1 6 True), (4, Setsockopt (6, 1, 1)),
        (4, Connect (SockAddr4 ''93.184.216.34'' 80))])"
    by (simp add: eval_dial)
  show ?thesis
    using first_connectable_wins [OF r p c] p c unfolding e by simp
qed

subsection \<open>The error of the last attempt\<close>

lemma new_conn_surfaces:
  assumes "fst (create_connection os (rstrip ''.'' (conn_host self), conn_port self)
                  (conn_timeout self) (extra_kw self)) = Inl (OSError e)"
  shows "fst (new_conn os self) = Inl (surfaced os self e)"
  using assms
  by (cases "create_connection os (rstrip ''.'' (conn_host self), conn_port self)
                  (conn_timeout self) (extra_kw self)")
     (auto simp: new_conn_def surfaced_def split: socket_error.splits)

text \<open>
  Claim C5. Let the resolver's list be \<open>pre @ c # post\<close>, where every candidate of
  \<open>pre\<close> is filtered or fails with a \<open>socket.error\<close>, \<open>c\<close> is safe and its attempt
  fails with the \<open>socket.error\<close> \<open>e\<close>, and \<open>post\<close> holds unsafe candidates only: so
  \<open>c\<close> is the last candidate attempted. Then \<open>create_connection\<close> raises \<open>e\<close>,
  whatever the earlier attempts recorded, and \<open>_new_conn\<close> turns it into
  \<open>ConnectTimeoutError\<close>, naming the connection's host and timeout, if \<open>e\<close> is a
  timeout, and otherwise into \<open>NewConnectionError\<close> ending in the text of \<open>e\<close>.
\<close>

theorem last_attempt_error_raised:
  assumes r: "getaddrinfo os (dial_host host) port = Inr (pre @ c # post)"
      and p: "list_all (passed_over os timeout socket_options) pre"
      and c: "is_safe c" "attempt_error os timeout socket_options c = Some e"
      and q: "list_all is_unsafe post"
  shows "fst (create_connection os (host, port) timeout socket_options) = Inl (OSError e)
         \<and> (\<forall>self. rstrip ''.'' (conn_host self) = host \<and> conn_port self = port \<and>
                   conn_timeout self = timeout \<and> extra_kw self = socket_options \<longrightarrow>
                fst (new_conn os self) =
                  Inl (case e of
                         SocketTimeout m \<Rightarrow>
                           ConnectTimeoutError
                             (''Connection to '' @ conn_host self @
                              '' timed out. (connect timeout='' @
                              str_timeout os timeout @ '')'')
                       | SocketError m \<Rightarrow>
                           NewConnectionError (''Failed to establish a new connection: '' @ m)))"
proof -
  let ?bs = "map (attempt_calls os timeout socket_options) (filter is_safe pre)"
  have "connect_loop os timeout socket_options (pre @ c # post) None [] =
        connect_loop os timeout socket_options (c # post)
          (err_after os timeout socket_options pre None)
          ([] @ number_blocks (length ([]::event list)) ?bs)"
    using p by (rule loop_through)
  also have "\<dots> = connect_loop os timeout socket_options post (Some e)
          (([] @ number_blocks (length ([]::event list)) ?bs) @
           map (Pair (length ([] @ number_blocks (length ([]::event list)) ?bs)))
             (snd (snd (try_body os timeout socket_options c)) @
              (if fst (snd (try_body os timeout socket_options c)) then [Close] else [])))"
    by (rule loop_fails [OF c])
  also have "fst \<dots> = Inl (OSError e)"
    using loop_all_unsafe [OF q] by simp
  finally have 1: "fst (create_connection os (host, port) timeout socket_options) = Inl (OSError e)"
    using r by (simp add: create_connection_def)
  have 2: "fst (new_conn os self) = Inl (surfaced os self e)"
    if "rstrip ''.'' (conn_host self) = host \<and> conn_port self = port \<and>
        conn_timeout self = timeout \<and> extra_kw self = socket_options" for self
    using 1 that by (intro new_conn_surfaces) simp
  show ?thesis using 1 2 by (auto simp: surfaced_def)
qed

theorem last_attempt_error_raised_witness:
  "passed_over
     (example_os [cand4 ''93.184.216.34'' 80, cand4 ''93.184.216.35'' 80, cand4 ''10.10.10.58'' 80]
        [(''93.184.216.34'', SocketError ''[Errno 111] Connection refused''),
         (''93.184.216.35'', SocketTimeout ''timed out'')])
     (Timeout (Some 5)) (Some [(6, 1, 1)]) (cand4 ''93.184.216.34'' 80)
   \<and> attempt_error
     (example_os [cand4 ''93.184.216.34'' 80, cand4 ''93.184.216.35'' 80, cand4 ''10.10.10.58'' 80]
        [(''93.184.216.34'', SocketError ''[Errno 111] Connection refused''),
         (''93.184.216.35'', SocketTimeout ''timed out'')])
     (Timeout (Some 5)) (Some [(6, 1, 1)]) (cand4 ''93.184.216.35'' 80) =
       Some (SocketTimeout ''timed out'')
   \<and> is_unsafe (cand4 ''10.10.10.58'' 80)
   \<and> fst (create_connection
     (example_os [cand4 ''93.184.216.34'' 80, cand4 ''93.184.216.35'' 80, cand4 ''10.10.10.58'' 80]
        [(''93.184.216.34'', SocketError ''[Errno 111] Connection refused''),
         (''93.184.216.35'', SocketTimeout ''timed out'')])
     (''example.com'', 80) (Timeout (Some 5)) (Some [(6, 1, 1)])) =
       Inl (OSError (SocketTimeout ''timed out''))
   \<and> fst (new_conn
     (example_os [cand4 ''93.184.216.34'' 80, cand4 ''93.184.216.35'' 80, cand4 ''10.10.10.58'' 80]
        [(''93.184.216.34'', SocketError ''[Errno 111] Connection refused''),
         (''93.184.216.35'', SocketTimeout ''timed out'')])
     \<lparr>conn_host = ''example.com.'', conn_port = 80, conn_timeout = Timeout (Some 5),
      conn_socket_options = Some [(6, 1, 1)]\<rparr>) =
       Inl (ConnectTimeoutError ''Connection to example.com. timed out. (connect timeout=5)'')"
proof -
  let ?os = "example_os [cand4 ''93.184.216.34'' 80, cand4 ''93.184.216.35'' 80, cand4 ''10.10.10.58'' 80]
        [(''93.184.216.34'', SocketError ''[Errno 111] Connection refused''),
         (''93.184.216.35'', SocketTimeout ''timed out'')]"
  let ?self = "\<lparr>conn_host = ''example.com.'', conn_port = 80, conn_timeout = Timeout (Some 5),
      conn_socket_options = Some [(6, 1, 1)]\<rparr>"
  have r: "getaddrinfo ?os (dial_host ''example.com'') 80 =
        Inr ([cand4 ''93.184.216.34'' 80] @ cand4 ''93.184.216.35'' 80 # [cand4 ''10.10.10.58'' 80])"
    by (simp add: example_os_def)
  have p1: "passed_over ?os (Timeout (Some 5)) (Some [(6, 1, 1)]) (cand4 ''93.184.216.34'' 80)"
    by (simp add: eval_dial)
  then have p: "list_all (passed_over ?os (Timeout (Some 5)) (Some [(6, 1, 1)])) [cand4 ''93.184.216.34'' 80]"
    by simp
  have c: "is_safe (cand4 ''93.184.216.35'' 80)"
    "attempt_error ?os (Timeout (Some 5)) (Some [(6, 1, 1)]) (cand4 ''93.184.216.35'' 80) =
       Some (SocketTimeout ''timed out'')"
    by (simp_all add: eval_dial)
  have u: "is_unsafe (cand4 ''10.10.10.58'' 80)" by (simp add: cand_examples)
  then have q: "list_all is_unsafe [cand4 ''10.10.10.58'' 80]" by simp
  note t = last_attempt_error_raised [OF r p c q]
  have s: "rstrip ''.'' (conn_host ?self) = ''example.com'' \<and> conn_port ?self = 80 \<and>
           conn_timeout ?self = Timeout (Some 5) \<and> extra_kw ?self = Some [(6, 1, 1)]"
    by (simp add: rstrip_def extra_kw_def)
  have n: "fst (new_conn ?os ?self) =
       Inl (ConnectTimeoutError
              (''Connection to '' @ conn_host ?self @ '' timed out. (connect timeout='' @
               str_timeout ?os (Timeout (Some 5)) @ '')''))"
    using t s by simp
  have m: "str_timeout ?os (Timeout (Some 5)) = ''5''"
    by (simp add: str_timeout_def str_int_def)
  show ?thesis using t p1 c(2) u n m by simp
qed

subsection \<open>No candidate to attempt\<close>

text \<open>
  Claim C3, as stated, fails: when every candidate is unsafe the message is
  \<open>getaddrinfo returns an empty list\<close>, not \<open>no usable address found\<close>, and the
  exception is a plain \<open>socket.error\<close>, the class that a refused connect raises too;
  \<open>_new_conn\<close> turns both into \<open>NewConnectionError\<close>.
\<close>

theorem no_attempt_error_counterexample:
  "fst (create_connection (example_os [cand4 ''10.10.10.58'' 80] [])
          (''example.com'', 80) GLOBAL_DEFAULT_TIMEOUT (Some [(6, 1, 1)])) =
     Inl (OSError (SocketError ''getaddrinfo returns an empty list''))
   \<and> ''getaddrinfo returns an empty list'' \<noteq> ''no usable address found''
   \<and> fst (create_connection
            (example_os [cand4 ''93.184.216.34'' 80]
               [(''93.184.216.34'', SocketError ''[Errno 111] Connection refused'')])
            (''example.com'', 80) GLOBAL_DEFAULT_TIMEOUT (Some [(6, 1, 1)])) =
     Inl (OSError (SocketError ''[Errno 111] Connection refused''))
   \<and> fst (new_conn (example_os [cand4 ''10.10.10.58'' 80] [])
            \<lparr>conn_host = ''example.com'', conn_port = 80,
             conn_timeout = GLOBAL_DEFAULT_TIMEOUT, conn_socket_options = Some [(6, 1, 1)]\<rparr>) =
     Inl (NewConnectionError
            ''Failed to establish a new connection: getaddrinfo returns an empty list'')
   \<and> fst (new_conn
            (example_os [cand4 ''93.184.216.34'' 80]
               [(''93.184.216.34'', SocketError ''[Errno 111] Connection refused'')])
            \<lparr>conn_host = ''example.com'', conn_port = 80,
             conn_timeout = GLOBAL_DEFAULT_TIMEOUT, conn_socket_options = Some [(6, 1, 1)]\<rparr>) =
     Inl (NewConnectionError
            ''Failed to establish a new connection: [Errno 111] Connection refused'')"
  by (simp add: eval_dial is_safe_def is_unsafe_def ip_is_safe_examples)

text \<open>
  Claim C3, amended. When the resolver yields no candidate or only unsafe ones,
  \<open>create_connection\<close> makes no call and raises a \<open>socket.error\<close> with the fixed
  message \<open>getaddrinfo returns an empty list\<close>, whatever the candidates, the timeout
  and the socket options are; \<open>_new_conn\<close> raises \<open>NewConnectionError\<close> with that
  message after its fixed prefix. There is no error class of its own for this case.
\<close>

theorem no_attempt_raises_fixed_error:
  assumes r: "getaddrinfo os (dial_host host) port = Inr results"
      and u: "list_all is_unsafe results"
  shows "create_connection os (host, port) timeout socket_options =
           (Inl (OSError (SocketError ''getaddrinfo returns an empty list'')), [])
         \<and> (\<forall>self. rstrip ''.'' (conn_host self) = host \<and> conn_port self = port \<longrightarrow>
                new_conn os self =
                  (Inl (NewConnectionError
                     ''Failed to establish a new connection: getaddrinfo returns an empty list''),
                   []))"
proof -
  have 1: "create_connection os (host, port) t so =
           (Inl (OSError (SocketError ''getaddrinfo returns an empty list'')), [])" for t so
    using r loop_all_unsafe [OF u] by (simp add: create_connection_def)
  then show ?thesis by (auto simp: new_conn_def)
qed

theorem no_attempt_raises_fixed_error_witness:
  "is_unsafe (cand6 ''2001:db8::1'' 80)
   \<and> create_connection (example_os [cand6 ''2001:db8::1'' 80] []) (''example.com'', 80)
        (Timeout (Some 5)) None =
      (Inl (OSError (SocketError ''getaddrinfo returns an empty list'')), [])"
proof -
  have r: "getaddrinfo (example_os [cand6 ''2001:db8::1'' 80] []) (dial_host ''example.com'') 80 =
           Inr [cand6 ''2001:db8::1'' 80]"
    by (simp add: example_os_def)
  have u: "is_unsafe (cand6 ''2001:db8::1'' 80)" by (simp add: cand_examples)
  then have l: "list_all is_unsafe [cand6 ''2001:db8::1'' 80]" by simp
  show ?thesis using no_attempt_raises_fixed_error [OF r l] u by simp
qed

subsection \<open>The calls of one attempt\<close>

lemma loop_trace_extends:
  "\<exists>ext. snd (connect_loop os t so cands err tr) = tr @ ext"
proof (induction cands arbitrary: err tr)
  case Nil
  show ?case by (simp split: option.splits)
next
  case (Cons x cands)
  show ?case
  proof (cases "ip_is_safe (sa_host (ai_addr x))")
    case (Inl e)
    then show ?thesis by simp
  next
    case (Inr b)
    obtain r cr calls where tb: "try_body os t so x = (r, cr, calls)"
      by (cases "try_body os t so x")
    show ?thesis
    proof (cases b)
      case False
      then show ?thesis using Inr Cons.IH [of err tr] by simp
    next
      case True
      show ?thesis
      proof (cases r)
        case None
        then show ?thesis using Inr True tb by simp
      next
        case (Some exc)
        show ?thesis
        proof (cases exc)
          case (OSError e)
          from Cons.IH [of "Some e" "tr @ map (Pair (length tr)) (calls @ (if cr then [Close] else []))"]
          obtain ext where "snd (connect_loop os t so cands (Some e)
               (tr @ map (Pair (length tr)) (calls @ (if cr then [Close] else [])))) =
               (tr @ map (Pair (length tr)) (calls @ (if cr then [Close] else []))) @ ext"
            by blast
          then show ?thesis using Inr True tb Some OSError by simp
        qed (use Inr True tb Some in simp_all)
      qed
    qed
  qed
qed


lemma set_options_Cons_ok:
  "setsockopt_fails os a = None \<Longrightarrow> set_options os opts = (r, calls) \<Longrightarrow>
   set_options os (a # opts) = (r, Setsockopt a # calls)"
  by simp

lemma set_options_Cons_fails:
  "setsockopt_fails os a = Some e \<Longrightarrow> set_options os (a # opts) = (Some e, [Setsockopt a])"
  by simp

lemma set_options_prefix:
  "\<exists>j. snd (set_options os opts) = map Setsockopt (take j opts) \<and>
       (fst (set_options os opts) = None \<longrightarrow> snd (set_options os opts) = map Setsockopt opts)"
proof (induction opts)
  case Nil
  show ?case by simp
next
  case (Cons a opts)
  obtain r calls where rc: "set_options os opts = (r, calls)" by (cases "set_options os opts")
  show ?case
  proof (cases "setsockopt_fails os a")
    case (Some e)
    have "snd (set_options os (a # opts)) = map Setsockopt (take 1 (a # opts)) \<and>
       (fst (set_options os (a # opts)) = None \<longrightarrow>
          snd (set_options os (a # opts)) = map Setsockopt (a # opts))"
      unfolding set_options_Cons_fails [OF Some] by simp
    then show ?thesis by (rule exI)
  next
    case None
    from Cons rc obtain j where j: "calls = map Setsockopt (take j opts)"
      and f: "r = None \<longrightarrow> calls = map Setsockopt opts"
      by (elim exE conjE) simp
    have "snd (set_options os (a # opts)) = map Setsockopt (take (Suc j) (a # opts)) \<and>
       (fst (set_options os (a # opts)) = None \<longrightarrow>
          snd (set_options os (a # opts)) = map Setsockopt (a # opts))"
      unfolding set_options_Cons_ok [OF None rc] using j f by simp
    then show ?thesis by (rule exI)
  qed
qed

lemma set_options_all_ok:
  "list_all (\<lambda>opt. setsockopt_fails os opt = None) opts \<Longrightarrow> fst (set_options os opts) = None"
proof (induction opts)
  case Nil
  show ?case by simp
next
  case (Cons a opts)
  obtain r calls where rc: "set_options os opts = (r, calls)" by (cases "set_options os opts")
  have a: "setsockopt_fails os a = None" using Cons.prems by simp
  have "r = None" using Cons rc by simp
  then show ?case unfolding set_options_Cons_ok [OF a rc] by simp
qed

lemma nonempty_prefix: "P \<noteq> [] \<Longrightarrow> \<exists>k. P = take (Suc k) (P @ S)"
  by (intro exI [of _ "length P - 1"]) simp

lemma try_body_calls_shape:
  "snd (snd (try_body os t (Some opts) res)) =
     [Socket (ai_family res) (ai_socktype res) (ai_protocol res) False] \<or>
   (\<exists>k. snd (snd (try_body os t (Some opts) res)) = take (Suc k) (full_attempt opts t res))"
proof -
  let ?c0 = "Socket (ai_family res) (ai_socktype res) (ai_protocol res) True"
  let ?T = "case t of GLOBAL_DEFAULT_TIMEOUT \<Rightarrow> [] | Timeout v \<Rightarrow> [Settimeout v]"
  obtain r1 c1 where o: "set_options os opts = (r1, c1)" by (cases "set_options os opts")
  obtain r2 c2 where s: "set_timeout t = (r2, c2)" by (cases "set_timeout t")
  have c2: "c2 = ?T" using s set_timeout_calls [of t] by simp
  obtain j where j: "c1 = map Setsockopt (take j opts)"
    and all: "r1 = None \<longrightarrow> c1 = map Setsockopt opts"
    using set_options_prefix [of os opts] o by auto
  show ?thesis
  proof (cases "socket_fails os (ai_family res) (ai_socktype res) (ai_protocol res)")
    case (Some e)
    then show ?thesis by (simp add: try_body_def)
  next
    case None
    show ?thesis
    proof (cases r1)
      case (Some e)
      have "snd (snd (try_body os t (Some opts) res)) = ?c0 # c1"
        using None o Some by (simp add: try_body_def Let_def)
      moreover have "full_attempt opts t res =
          (?c0 # c1) @ (map Setsockopt (drop j opts) @ ?T @ [Connect (ai_addr res)])"
        unfolding j full_attempt_def by (simp flip: map_append)
      ultimately show ?thesis using nonempty_prefix [of "?c0 # c1"] by (metis list.distinct(1))
    next
      case r1: None
      then have c1: "c1 = map Setsockopt opts" using all by simp
      show ?thesis
      proof (cases r2)
        case (Some e)
        have "snd (snd (try_body os t (Some opts) res)) = ?c0 # c1 @ c2"
          using None o s r1 Some by (simp add: try_body_def Let_def)
        moreover have "full_attempt opts t res = (?c0 # c1 @ c2) @ [Connect (ai_addr res)]"
          unfolding c1 c2 full_attempt_def by simp
        ultimately show ?thesis using nonempty_prefix [of "?c0 # c1 @ c2"] by (metis list.distinct(1))
      next
        case r2: None
        have "snd (snd (try_body os t (Some opts) res)) = ?c0 # c1 @ c2 @ [Connect (ai_addr res)]"
          using None o s r1 r2 by (simp add: try_body_def Let_def split: option.splits)
        moreover have "full_attempt opts t res = (?c0 # c1 @ c2 @ [Connect (ai_addr res)]) @ []"
          unfolding c1 c2 full_attempt_def by simp
        ultimately show ?thesis
          using nonempty_prefix [of "?c0 # c1 @ c2 @ [Connect (ai_addr res)]"]
          by (metis list.distinct(1))
      qed
    qed
  qed
qed

lemma try_body_connect_called:
  assumes "Connect (ai_addr res) \<in> set (snd (snd (try_body os t (Some opts) res)))"
  shows "snd (snd (try_body os t (Some opts) res)) = full_attempt opts t res"
proof -
  obtain r1 c1 where o: "set_options os opts = (r1, c1)" by (cases "set_options os opts")
  obtain r2 c2 where s: "set_timeout t = (r2, c2)" by (cases "set_timeout t")
  have c2: "c2 = (case t of GLOBAL_DEFAULT_TIMEOUT \<Rightarrow> [] | Timeout v \<Rightarrow> [Settimeout v])"
    using s set_timeout_calls [of t] by simp
  obtain j where j: "c1 = map Setsockopt (take j opts)"
    and all: "r1 = None \<longrightarrow> c1 = map Setsockopt opts"
    using set_options_prefix [of os opts] o by auto
  have n1: "Connect (ai_addr res) \<notin> set c1" using j by auto
  have n2: "Connect (ai_addr res) \<notin> set c2" using c2 by (auto split: timeout.splits)
  from assms o s n1 n2 have "r1 = None" "r2 = None"
    by (auto simp: try_body_def Let_def split: option.splits)
  then show ?thesis using assms o s all c2
    by (auto simp: try_body_def Let_def full_attempt_def split: option.splits)
qed

lemma try_body_all_ok:
  assumes "socket_fails os (ai_family res) (ai_socktype res) (ai_protocol res) = None"
      and "list_all (\<lambda>opt. setsockopt_fails os opt = None) opts"
      and "fst (set_timeout t) = None"
  shows "snd (snd (try_body os t (Some opts) res)) = full_attempt opts t res"
proof -
  obtain r1 c1 where o: "set_options os opts = (r1, c1)" by (cases "set_options os opts")
  obtain r2 c2 where s: "set_timeout t = (r2, c2)" by (cases "set_timeout t")
  have r1: "r1 = None" using set_options_all_ok [OF assms(2)] o by simp
  have r2: "r2 = None" using assms(3) s by simp
  have "Connect (ai_addr res) \<in> set (snd (snd (try_body os t (Some opts) res)))"
    using assms(1) o s r1 r2 by (auto simp: try_body_def Let_def split: option.splits)
  then show ?thesis by (rule try_body_connect_called)
qed

lemma loop_safe_trace:
  assumes "is_safe res"
  shows "\<exists>ext. snd (connect_loop os t so (res # rest) err tr) =
           tr @ map (Pair (length tr)) (snd (snd (try_body os t so res))) @ ext"
proof -
  obtain r cr calls where tb: "try_body os t so res = (r, cr, calls)"
    by (cases "try_body os t so res")
  have s: "ip_is_safe (sa_host (ai_addr res)) = Inr True" using assms by (simp add: is_safe_def)
  show ?thesis
  proof (cases r)
    case None
    then show ?thesis using s tb by simp
  next
    case (Some exc)
    show ?thesis
    proof (cases exc)
      case (OSError e)
      let ?tr = "tr @ map (Pair (length tr)) (calls @ (if cr then [Close] else []))"
      obtain ext where "snd (connect_loop os t so rest (Some e) ?tr) = ?tr @ ext"
        using loop_trace_extends by blast
      then have "snd (connect_loop os t so (res # rest) err tr) =
            tr @ map (Pair (length tr)) calls @ (map (Pair (length tr)) (if cr then [Close] else []) @ ext)"
        using s tb Some OSError by simp
      then show ?thesis using tb by auto
    qed (use s tb Some in simp_all)
  qed
qed

text \<open>
  Claim C8. For a safe candidate that the loop reaches, with a list of socket options:
  the calls of the attempt stand in the trace right after the calls made before; they
  are the one failed \<open>socket.socket\<close> call, or a beginning of the sequence "socket,
  every option in the order given, \<open>settimeout\<close> if and only if a timeout was
  requested, connect"; \<open>connect\<close> is called only at the end of that whole sequence;
  and the whole sequence is run when none of the calls before \<open>connect\<close> raises.
\<close>

theorem attempt_call_order:
  assumes "is_safe res"
  shows "(\<exists>ext. snd (connect_loop os timeout (Some opts) (res # rest) err tr) =
            tr @ map (Pair (length tr)) (snd (snd (try_body os timeout (Some opts) res))) @ ext)
       \<and> (snd (snd (try_body os timeout (Some opts) res)) =
            [Socket (ai_family res) (ai_socktype res) (ai_protocol res) False] \<or>
          (\<exists>k. snd (snd (try_body os timeout (Some opts) res)) =
                 take (Suc k) (full_attempt opts timeout res)))
       \<and> (Connect (ai_addr res) \<in> set (snd (snd (try_body os timeout (Some opts) res))) \<longrightarrow>
            snd (snd (try_body os timeout (Some opts) res)) = full_attempt opts timeout res)
       \<and> (socket_fails os (ai_family res) (ai_socktype res) (ai_protocol res) = None \<and>
          list_all (\<lambda>opt. setsockopt_fails os opt = None) opts \<and>
          fst (set_timeout timeout) = None \<longrightarrow>
            snd (snd (try_body os timeout (Some opts) res)) = full_attempt opts timeout res)"
  using loop_safe_trace [OF assms] try_body_calls_shape try_body_connect_called try_body_all_ok
  by blast

theorem attempt_call_order_witness:
  "is_safe (cand4 ''93.184.216.34'' 80)
   \<and> snd (connect_loop (example_os [] []) (Timeout (Some 5)) (Some [(6, 1, 1), (1, 9, 1)])
           [cand4 ''93.184.216.34'' 80] None []) =
     [(0, Socket 2 1 6 True), (0, Setsockopt (6, 1, 1)), (0, Setsockopt (1, 9, 1)),
      (0, Settimeout (Some 5)), (0, Connect (SockAddr4 ''93.184.216.34'' 80))]
   \<and> snd (snd (try_body (example_os [] []) (Timeout (Some 5)) (Some [(6, 1, 1), (1, 9, 1)])
                (cand4 ''93.184.216.34'' 80))) =
     full_attempt [(6, 1, 1), (1, 9, 1)] (Timeout (Some 5)) (cand4 ''93.184.216.34'' 80)
   \<and> full_attempt [(6, 1, 1), (1, 9, 1)] (Timeout (Some 5)) (cand4 ''93.184.216.34'' 80) =
     [Socket 2 1 6 True, Setsockopt (6, 1, 1), Setsockopt (1, 9, 1), Settimeout (Some 5),
      Connect (SockAddr4 ''93.184.216.34'' 80)]
   \<and> snd (connect_loop (example_os [] []) GLOBAL_DEFAULT_TIMEOUT (Some [(6, 1, 1), (1, 9, 1)])
           [cand4 ''93.184.216.34'' 80] None []) =
     [(0, Socket 2 1 6 True), (0, Setsockopt (6, 1, 1)), (0, Setsockopt (1, 9, 1)),
      (0, Connect (SockAddr4 ''93.184.216.34'' 80))]"
proof -
  let ?os = "example_os [] []"
  have s: "is_safe (cand4 ''93.184.216.34'' 80)" by (simp add: cand_examples)
  have h: "socket_fails ?os (ai_family (cand4 ''93.184.216.34'' 80))
             (ai_socktype (cand4 ''93.184.216.34'' 80)) (ai_protocol (cand4 ''93.184.216.34'' 80)) = None \<and>
          list_all (\<lambda>opt. setsockopt_fails ?os opt = None) [(6, 1, 1), (1, 9, 1)] \<and>
          fst (set_timeout (Timeout (Some 5))) = None"
    by (simp add: eval_dial)
  have f: "snd (snd (try_body ?os (Timeout (Some 5)) (Some [(6, 1, 1), (1, 9, 1)])
                (cand4 ''93.184.216.34'' 80))) =
     full_attempt [(6, 1, 1), (1, 9, 1)] (Timeout (Some 5)) (cand4 ''93.184.216.34'' 80)"
    using attempt_call_order [OF s, of ?os "Timeout (Some 5)" "[(6, 1, 1), (1, 9, 1)]"] h
    by blast
  have e: "full_attempt [(6, 1, 1), (1, 9, 1)] (Timeout (Some 5)) (cand4 ''93.184.216.34'' 80) =
     [Socket 2 1 6 True, Setsockopt (6, 1, 1), Setsockopt (1, 9, 1), Settimeout (Some 5),
      Connect (SockAddr4 ''93.184.216.34'' 80)]"
    by (simp add: eval_dial)
  have l1: "snd (connect_loop ?os (Timeout (Some 5)) (Some [(6, 1, 1), (1, 9, 1)])
           [cand4 ''93.184.216.34'' 80] None []) =
     [(0, Socket 2 1 6 True), (0, Setsockopt (6, 1, 1)), (0, Setsockopt (1, 9, 1)),
      (0, Settimeout (Some 5)), (0, Connect (SockAddr4 ''93.184.216.34'' 80))]"
    by (simp add: eval_dial ip_is_safe_examples)
  have l2: "snd (connect_loop ?os GLOBAL_DEFAULT_TIMEOUT (Some [(6, 1, 1), (1, 9, 1)])
           [cand4 ''93.184.216.34'' 80] None []) =
     [(0, Socket 2 1 6 True), (0, Setsockopt (6, 1, 1)), (0, Setsockopt (1, 9, 1)),
      (0, Connect (SockAddr4 ''93.184.216.34'' 80))]"
    by (simp add: eval_dial ip_is_safe_examples)
  show ?thesis using s f e l1 l2 by simp
qed

subsection \<open>The default \<open>socket_options\<close>\<close>

text \<open>
  Claim C10, as stated, fails where \<open>socket.socket\<close> itself raises for the safe
  candidate (as a fixture of the test suite has it): the handler records that error and
  it is raised at the end; no \<open>TypeError\<close>, and no socket to leave open.
\<close>

theorem default_options_counterexample:
  "is_safe (cand4 ''93.184.216.34'' 80)
   \<and> create_connection
        (no_socket_os [cand4 ''93.184.216.34'' 80] (SocketTimeout ''This always fails''))
        (''example.com'', 80) GLOBAL_DEFAULT_TIMEOUT None =
      (Inl (OSError (SocketTimeout ''This always fails'')), [(0, Socket 2 1 6 False)])"
  by (simp add: eval_dial ip_is_safe_examples)


lemma try_body_no_options:
  "try_body os t None res =
     (case socket_fails os (ai_family res) (ai_socktype res) (ai_protocol res) of
        Some e \<Rightarrow> (Some (OSError e), False,
                   [Socket (ai_family res) (ai_socktype res) (ai_protocol res) False])
      | None \<Rightarrow> (Some (TypeError (repr ''NoneType'' @ '' object is not iterable'')), True,
                   [Socket (ai_family res) (ai_socktype res) (ai_protocol res) True]))"
  by (simp add: try_body_def split: option.splits)

lemma refused_attempt:
  assumes "socket_refused os x"
  shows "attempt_error os t None x \<noteq> None"
    and "attempt_calls os t None x = [Socket (ai_family x) (ai_socktype x) (ai_protocol x) False]"
  using assms
  by (auto simp: socket_refused_def attempt_error_def attempt_calls_def try_body_no_options)

lemma created_socks_failed_blocks:
  "created_socks (number_blocks n
      (map (\<lambda>x. [Socket (ai_family x) (ai_socktype x) (ai_protocol x) False]) xs)) = []"
  by (induction xs arbitrary: n) (simp_all add: created_socks_def)

lemma no_close_in_failed_blocks:
  "(s, Close) \<notin> set (number_blocks n
      (map (\<lambda>x. [Socket (ai_family x) (ai_socktype x) (ai_protocol x) False]) xs))"
  by (induction xs arbitrary: n) simp_all

text \<open>
  Claim C10, amended. With \<open>socket_options\<close> left at its default \<open>None\<close>, let the
  resolver's list be \<open>pre @ c # post\<close>, where every candidate of \<open>pre\<close> is unsafe or
  is safe with \<open>socket.socket\<close> raising for it, and \<open>c\<close> is safe with
  \<open>socket.socket\<close> returning a socket. Then \<open>create_connection\<close> raises the
  \<open>TypeError\<close> of iterating over \<open>None\<close>; its calls are the failed
  \<open>socket.socket\<close> calls for the safe candidates of \<open>pre\<close> and the one that created
  \<open>c\<close>'s socket; that socket is left open.
\<close>

theorem default_options_type_error:
  assumes r: "getaddrinfo os (dial_host host) port = Inr (pre @ c # post)"
      and p: "list_all (\<lambda>x. is_unsafe x \<or> (is_safe x \<and> socket_refused os x)) pre"
      and c: "is_safe c" "\<not> socket_refused os c"
  shows "create_connection os (host, port) timeout None =
           (Inl (TypeError (repr ''NoneType'' @ '' object is not iterable'')),
            number_blocks 0
              (map (\<lambda>x. [Socket (ai_family x) (ai_socktype x) (ai_protocol x) False])
                 (filter is_safe pre)) @
            [(length (filter is_safe pre),
              Socket (ai_family c) (ai_socktype c) (ai_protocol c) True)])
         \<and> open_socks (snd (create_connection os (host, port) timeout None)) =
             [length (filter is_safe pre)]"
proof -
  let ?f = "\<lambda>x. [Socket (ai_family x) (ai_socktype x) (ai_protocol x) False]"
  let ?n = "length (filter is_safe pre)"
  let ?tr = "number_blocks 0 (map ?f (filter is_safe pre))"
  have po: "list_all (passed_over os timeout None) pre"
    using p refused_attempt(1) by (auto simp: list_all_iff passed_over_def)
  have m: "map (attempt_calls os timeout None) (filter is_safe pre) = map ?f (filter is_safe pre)"
    using p refused_attempt(2) safe_not_unsafe by (auto simp: list_all_iff)
  have len: "length ?tr = ?n"
    by (simp add: length_number_blocks length_concat comp_def sum_list_triv)
  have tb: "try_body os timeout None c =
      (Some (TypeError (repr ''NoneType'' @ '' object is not iterable'')), True,
       [Socket (ai_family c) (ai_socktype c) (ai_protocol c) True])"
    using c(2) by (simp add: socket_refused_def try_body_no_options)
  have "connect_loop os timeout None (pre @ c # post) None [] =
        connect_loop os timeout None (c # post) (err_after os timeout None pre None)
          ([] @ number_blocks (length ([]::event list))
                  (map (attempt_calls os timeout None) (filter is_safe pre)))"
    using po by (rule loop_through)
  also have "\<dots> = (Inl (TypeError (repr ''NoneType'' @ '' object is not iterable'')),
        ?tr @ [(?n, Socket (ai_family c) (ai_socktype c) (ai_protocol c) True)])"
    using c(1) tb len unfolding m by (simp add: is_safe_def)
  finally have 1: "create_connection os (host, port) timeout None =
           (Inl (TypeError (repr ''NoneType'' @ '' object is not iterable'')),
            ?tr @ [(?n, Socket (ai_family c) (ai_socktype c) (ai_protocol c) True)])"
    using r by (simp add: create_connection_def)
  have "open_socks (?tr @ [(?n, Socket (ai_family c) (ai_socktype c) (ai_protocol c) True)]) = [?n]"
    using created_socks_failed_blocks [of 0 "filter is_safe pre"]
          no_close_in_failed_blocks [of ?n 0 "filter is_safe pre"]
    by (simp add: open_socks_def created_socks_def)
  then show ?thesis using 1 by simp
qed

theorem default_options_type_error_witness:
  "is_unsafe (cand4 ''10.10.10.58'' 80)
   \<and> is_safe (cand6 ''2606:2800:220:1:248:1893:25c8:1946'' 80)
   \<and> socket_refused
        (ipv4_only_os [cand4 ''10.10.10.58'' 80, cand6 ''2606:2800:220:1:248:1893:25c8:1946'' 80,
                       cand4 ''93.184.216.34'' 80, cand4 ''93.184.216.35'' 80])
        (cand6 ''2606:2800:220:1:248:1893:25c8:1946'' 80)
   \<and> is_safe (cand4 ''93.184.216.34'' 80)
   \<and> \<not> socket_refused
        (ipv4_only_os [cand4 ''10.10.10.58'' 80, cand6 ''2606:2800:220:1:248:1893:25c8:1946'' 80,
                       cand4 ''93.184.216.34'' 80, cand4 ''93.184.216.35'' 80])
        (cand4 ''93.184.216.34'' 80)
   \<and> create_connection
        (ipv4_only_os [cand4 ''10.10.10.58'' 80, cand6 ''2606:2800:220:1:248:1893:25c8:1946'' 80,
                       cand4 ''93.184.216.34'' 80, cand4 ''93.184.216.35'' 80])
        (''example.com'', 80) GLOBAL_DEFAULT_TIMEOUT None =
      (Inl (TypeError (repr ''NoneType'' @ '' object is not iterable'')),
       [(0, Socket 10 1 6 False), (1, Socket 2 1 6 True)])
   \<and> open_socks (snd (create_connection
        (ipv4_only_os [cand4 ''10.10.10.58'' 80, cand6 ''2606:2800:220:1:248:1893:25c8:1946'' 80,
                       cand4 ''93.184.216.34'' 80, cand4 ''93.184.216.35'' 80])
        (''example.com'', 80) GLOBAL_DEFAULT_TIMEOUT None)) = [1]"
proof -
  let ?os = "ipv4_only_os [cand4 ''10.10.10.58'' 80, cand6 ''2606:2800:220:1:248:1893:25c8:1946'' 80,
                       cand4 ''93.184.216.34'' 80, cand4 ''93.184.216.35'' 80]"
  let ?pre = "[cand4 ''10.10.10.58'' 80, cand6 ''2606:2800:220:1:248:1893:25c8:1946'' 80]"
  have r: "getaddrinfo ?os (dial_host ''example.com'') 80 =
        Inr (?pre @ cand4 ''93.184.216.34'' 80 # [cand4 ''93.184.216.35'' 80])"
    by (simp add: eval_dial)
  have u: "is_unsafe (cand4 ''10.10.10.58'' 80)" by (simp add: cand_examples)
  have s6: "is_safe (cand6 ''2606:2800:220:1:248:1893:25c8:1946'' 80)" by (simp add: cand_examples)
  have r6: "socket_refused ?os (cand6 ''2606:2800:220:1:248:1893:25c8:1946'' 80)"
    by (simp add: eval_dial)
  have p: "list_all (\<lambda>x. is_unsafe x \<or> (is_safe x \<and> socket_refused ?os x)) ?pre"
    using u s6 r6 by simp
  have c: "is_safe (cand4 ''93.184.216.34'' 80)" "\<not> socket_refused ?os (cand4 ''93.184.216.34'' 80)"
    by (simp_all add: eval_dial)
  show ?thesis
    using default_options_type_error [OF r p c, of GLOBAL_DEFAULT_TIMEOUT] u s6 r6 c
    by (simp add: cand_fields cand_examples open_socks_def created_socks_def)
qed

subsection \<open>Sockets left open\<close>

lemma set_options_plain: "list_all plain_call (snd (set_options os opts))"
proof (induction opts)
  case Nil
  show ?case by simp
next
  case (Cons a opts)
  obtain r calls where rc: "set_options os opts = (r, calls)" by (cases "set_options os opts")
  show ?case
  proof (cases "setsockopt_fails os a")
    case None
    show ?thesis unfolding set_options_Cons_ok [OF None rc] using Cons rc by (simp add: plain_call_def)
  next
    case (Some e)
    show ?thesis unfolding set_options_Cons_fails [OF Some] by (simp add: plain_call_def)
  qed
qed

lemma set_timeout_plain: "list_all plain_call (snd (set_timeout t))"
  by (simp add: set_timeout_def plain_call_def split: timeout.splits)

lemma try_body_block:
  "\<exists>rest. snd (snd (try_body os t so res)) =
      Socket (ai_family res) (ai_socktype res) (ai_protocol res) (fst (snd (try_body os t so res))) # rest
      \<and> list_all plain_call rest"
proof -
  obtain r2 c2 where s: "set_timeout t = (r2, c2)" by (cases "set_timeout t")
  have p2: "list_all plain_call c2" using set_timeout_plain [of t] s by simp
  show ?thesis
  proof (cases so)
    case None
    then show ?thesis by (simp add: try_body_def split: option.splits)
  next
    case (Some opts)
    obtain r1 c1 where o: "set_options os opts = (r1, c1)" by (cases "set_options os opts")
    have p1: "list_all plain_call c1" using set_options_plain [of os opts] o by simp
    show ?thesis using Some o s p1 p2
      by (auto simp: try_body_def Let_def plain_call_def split: option.splits)
  qed
qed

lemma created_socks_append:
  "created_socks (tr @ ev) = created_socks tr @ created_socks ev"
  by (simp add: created_socks_def)

lemma created_socks_plain:
  "list_all plain_call rest \<Longrightarrow> created_socks (map (Pair n) rest) = []"
  by (induction rest) (auto simp: created_socks_def plain_call_def split: call.splits)

lemma created_socks_block:
  "list_all plain_call rest \<Longrightarrow>
   created_socks (map (Pair n) (Socket af st pr created # rest @ tl_calls)) =
     (if created then [n] else []) @ created_socks (map (Pair n) tl_calls)"
  using created_socks_plain [of rest n]
  by (simp add: created_socks_def)

lemma plain_no_close: "list_all plain_call rest \<Longrightarrow> (s, Close) \<notin> set (map (Pair n) rest)"
  by (induction rest) (auto simp: plain_call_def)

lemma created_in_trace: "s \<in> set (created_socks tr) \<Longrightarrow> s \<in> fst ` set tr"
  by (auto simp: created_socks_def)

lemma fresh_not_in: "fresh_numbers tr \<Longrightarrow> length tr \<notin> fst ` set tr"
  by (auto simp: fresh_numbers_def list_all_iff)

lemma fresh_numbers_append:
  "fresh_numbers tr \<Longrightarrow> fresh_numbers (tr @ map (Pair (length tr)) (c # b))"
  by (auto simp: fresh_numbers_def list_all_iff)

lemma open_socks_old:
  assumes "n \<notin> fst ` set tr"
  shows "filter (\<lambda>s. (s, Close) \<notin> set (tr @ map (Pair n) b)) (created_socks tr) = open_socks tr"
proof -
  have "(s, Close) \<notin> set (map (Pair n) b)" if "s \<in> set (created_socks tr)" for s
    using that assms created_in_trace by fastforce
  then show ?thesis unfolding open_socks_def by (auto intro: filter_cong)
qed

lemma open_socks_closed_block:
  assumes "n \<notin> fst ` set tr" and "list_all plain_call rest"
  shows "open_socks (tr @ map (Pair n) ((Socket af st pr created # rest) @ (if created then [Close] else []))) =
         open_socks tr"
proof -
  let ?b = "(Socket af st pr created # rest) @ (if created then [Close] else [])"
  have c: "created_socks (map (Pair n) ?b) = (if created then [n] else [])"
    using created_socks_block [OF assms(2), of n af st pr created "if created then [Close] else []"]
    by (simp add: created_socks_def)
  have "open_socks (tr @ map (Pair n) ?b) =
        filter (\<lambda>s. (s, Close) \<notin> set (tr @ map (Pair n) ?b)) (created_socks tr) @
        filter (\<lambda>s. (s, Close) \<notin> set (tr @ map (Pair n) ?b)) (if created then [n] else [])"
    unfolding open_socks_def created_socks_append c by simp
  also have "filter (\<lambda>s. (s, Close) \<notin> set (tr @ map (Pair n) ?b)) (created_socks tr) = open_socks tr"
    by (rule open_socks_old [OF assms(1)])
  also have "filter (\<lambda>s. (s, Close) \<notin> set (tr @ map (Pair n) ?b)) (if created then [n] else []) = []"
    by simp
  finally show ?thesis by simp
qed

lemma open_socks_open_block:
  assumes "n \<notin> fst ` set tr" and "list_all plain_call rest"
  shows "open_socks (tr @ map (Pair n) (Socket af st pr True # rest)) = open_socks tr @ [n]"
proof -
  let ?b = "Socket af st pr True # rest"
  have c: "created_socks (map (Pair n) ?b) = [n]"
    using created_socks_block [OF assms(2), of n af st pr True "[]"]
    by (simp add: created_socks_def)
  have nc: "(n, Close) \<notin> set (tr @ map (Pair n) ?b)"
    using assms plain_no_close [OF assms(2), of n n] by (auto simp: image_iff)
  have "open_socks (tr @ map (Pair n) ?b) =
        filter (\<lambda>s. (s, Close) \<notin> set (tr @ map (Pair n) ?b)) (created_socks tr) @
        filter (\<lambda>s. (s, Close) \<notin> set (tr @ map (Pair n) ?b)) [n]"
    unfolding open_socks_def created_socks_append c by simp
  also have "filter (\<lambda>s. (s, Close) \<notin> set (tr @ map (Pair n) ?b)) (created_socks tr) = open_socks tr"
    by (rule open_socks_old [OF assms(1)])
  also have "filter (\<lambda>s. (s, Close) \<notin> set (tr @ map (Pair n) ?b)) [n] = [n]"
    using nc by simp
  finally show ?thesis by simp
qed

lemma loop_no_leak:
  assumes t: "fst (set_timeout t) = None" and f: "fresh_numbers tr"
  shows "open_socks (snd (connect_loop os t (Some opts) cands err tr)) =
           open_socks tr @
           (case fst (connect_loop os t (Some opts) cands err tr) of Inl e \<Rightarrow> [] | Inr s \<Rightarrow> [s])"
  using f
proof (induction cands arbitrary: err tr)
  case Nil
  show ?case by (simp split: option.splits)
next
  case (Cons x cands)
  let ?n = "length tr"
  have n: "?n \<notin> fst ` set tr" using Cons.prems by (rule fresh_not_in)
  show ?case
  proof (cases "ip_is_safe (sa_host (ai_addr x))")
    case (Inl e)
    then show ?thesis by simp
  next
    case (Inr b)
    show ?thesis
    proof (cases b)
      case False
      then show ?thesis using Inr Cons.IH [OF Cons.prems, of err] by simp
    next
      case True
      obtain r cr calls where tb: "try_body os t (Some opts) x = (r, cr, calls)"
        by (cases "try_body os t (Some opts) x")
      obtain rest where calls: "calls = Socket (ai_family x) (ai_socktype x) (ai_protocol x) cr # rest"
        and plain: "list_all plain_call rest"
        using try_body_block [of os t "Some opts" x] tb by auto
      have kind: "r = None \<or> (\<exists>e. r = Some (OSError e))"
        using try_body_error_kind [OF t, of os opts x] tb by simp
      show ?thesis
      proof (cases r)
        case None
        then have "cr" using tb try_body_connects_calls [of os t opts x] calls
          by (simp add: full_attempt_def)
        then have "open_socks (tr @ map (Pair ?n) calls) = open_socks tr @ [?n]"
          unfolding calls using open_socks_open_block [OF n plain] by simp
        then show ?thesis using Inr True tb None by simp
      next
        case (Some exc)
        then obtain e where e: "exc = OSError e" using kind by auto
        let ?tr = "tr @ map (Pair ?n) (calls @ (if cr then [Close] else []))"
        have o: "open_socks ?tr = open_socks tr"
          unfolding calls by (rule open_socks_closed_block [OF n plain])
        have fr: "fresh_numbers ?tr"
          unfolding calls
          using fresh_numbers_append [OF Cons.prems,
                  of "Socket (ai_family x) (ai_socktype x) (ai_protocol x) cr"
                     "rest @ (if cr then [Close] else [])"]
          by simp
        have "connect_loop os t (Some opts) (x # cands) err tr =
              connect_loop os t (Some opts) cands (Some e) ?tr"
          using Inr True tb Some e by simp
        then show ?thesis using Cons.IH [OF fr, of "Some e"] o by simp
      qed
    qed
  qed
qed

text \<open>
  With a list of socket options and a timeout that \<open>settimeout\<close> accepts, no exit
  of \<open>create_connection\<close> leaves a socket open but the one it returns: the handler
  closes the socket of every failed attempt, and a candidate that is not an IP literal
  ends the call before a socket is created for it.
\<close>

theorem no_leak_with_options:
  assumes "fst (set_timeout timeout) = None"
  shows "open_socks (snd (create_connection os address timeout (Some opts))) =
           (case fst (create_connection os address timeout (Some opts)) of
              Inl e \<Rightarrow> []
            | Inr s \<Rightarrow> [s])"
proof -
  obtain host port where a: "address = (host, port)" by (cases address)
  have e: "fresh_numbers []" "open_socks [] = []"
    by (simp_all add: fresh_numbers_def open_socks_def created_socks_def)
  show ?thesis
  proof (cases "getaddrinfo os (dial_host host) port")
    case (Inl err)
    then show ?thesis using e by (simp add: a create_connection_def)
  next
    case (Inr cands)
    then show ?thesis
      using loop_no_leak [OF assms e(1), of os opts cands None] e(2)
      by (simp add: a create_connection_def)
  qed
qed

theorem no_leak_with_options_witness:
  "fst (set_timeout (Timeout (Some 5))) = None
   \<and> create_connection
        (example_os [cand4 ''93.184.216.35'' 80, cand4 ''93.184.216.34'' 80]
           [(''93.184.216.35'', SocketTimeout ''timed out'')])
        (''example.com'', 80) (Timeout (Some 5)) (Some [(6, 1, 1)]) =
      (Inr 5,
       [(0, Socket 2 1 6 True), (0, Setsockopt (6, 1, 1)), (0, Settimeout (Some 5)),
        (0, Connect (SockAddr4 ''93.184.216.35'' 80)), (0, Close),
        (5, Socket 2 1 6 True), (5, Setsockopt (6, 1, 1)), (5, Settimeout (Some 5)),
        (5, Connect (SockAddr4 ''93.184.216.34'' 80))])
   \<and> open_socks (snd (create_connection
        (example_os [cand4 ''93.184.216.35'' 80, cand4 ''93.184.216.34'' 80]
           [(''93.184.216.35'', SocketTimeout ''timed out'')])
        (''example.com'', 80) (Timeout (Some 5)) (Some [(6, 1, 1)]))) = [5]"
proof -
  let ?os = "example_os [cand4 ''93.184.216.35'' 80, cand4 ''93.184.216.34'' 80]
           [(''93.184.216.35'', SocketTimeout ''timed out'')]"
  have t: "fst (set_timeout (Timeout (Some 5))) = None"
    by (simp add: set_timeout_def settimeout_fails_def)
  have c: "create_connection ?os (''example.com'', 80) (Timeout (Some 5)) (Some [(6, 1, 1)]) =
      (Inr 5,
       [(0, Socket 2 1 6 True), (0, Setsockopt (6, 1, 1)), (0, Settimeout (Some 5)),
        (0, Connect (SockAddr4 ''93.184.216.35'' 80)), (0, Close),
        (5, Socket 2 1 6 True), (5, Setsockopt (6, 1, 1)), (5, Settimeout (Some 5)),
        (5, Connect (SockAddr4 ''93.184.216.34'' 80))])"
    by (simp add: eval_dial ip_is_safe_examples)
  show ?thesis
    using no_leak_with_options [OF t, of ?os "(''example.com'', 80)" "[(6, 1, 1)]"] t c
    by simp
qed

text \<open>
  Claim C6 fails on the code. A connection whose \<open>socket_options\<close> is the empty
  list makes \<open>_new_conn\<close> call \<open>create_connection\<close> without socket options; for the
  first safe candidate a socket is created, the \<open>TypeError\<close> leaves the function
  past the handler, and the socket is not closed. The same happens to the
  \<open>ValueError\<close> of \<open>settimeout\<close> on a negative timeout.
\<close>

theorem missing_options_leak:
  "new_conn (example_os [cand4 ''93.184.216.34'' 80] [])
     \<lparr>conn_host = ''example.com'', conn_port = 80, conn_timeout = GLOBAL_DEFAULT_TIMEOUT,
      conn_socket_options = Some []\<rparr> =
     (Inl (Uncaught (TypeError (repr ''NoneType'' @ '' object is not iterable''))),
      [(0, Socket 2 1 6 True)])
   \<and> open_socks [(0, Socket 2 1 6 True)] = [0]
   \<and> create_connection (example_os [cand4 ''93.184.216.34'' 80] []) (''example.com'', 80)
        (Timeout (Some (- 1))) (Some []) =
     (Inl (ValueError ''Timeout value out of range''),
      [(0, Socket 2 1 6 True), (0, Settimeout (Some (- 1)))])"
  by (simp add: eval_dial ip_is_safe_examples open_socks_def created_socks_def)


section \<open>The session\<close>








end
